theory Spec2Isabelle
  imports Main "HOL-Library.While_Combinator"
begin

section \<open>Text: the string operations the script relies on\<close>

text \<open>
  The script is Python; its strings are sequences of code points. A \<^typ>\<open>char\<close> stands for
  a code point below 256, so the model is exact for Latin-1 text; code points from 256 on
  are outside it.
\<close>

definition ascii_lowercase :: string where
  "ascii_lowercase = ''abcdefghijklmnopqrstuvwxyz''"

definition digit_char :: "nat \<Rightarrow> char" where
  "digit_char d = ''0123456789'' ! d"

text \<open>\<^verbatim>\<open>str(n)\<close> for a non-negative integer: its decimal digits, most significant first.\<close>

function digits_of :: "nat \<Rightarrow> string" where
  "digits_of n = (if n < 10 then [digit_char n] else digits_of (n div 10) @ [digit_char (n mod 10)])"
  by pat_completeness auto
termination
  by (relation "measure (\<lambda>n. n)") auto

declare digits_of.simps [simp del]

text \<open>\<^verbatim>\<open>str(i)\<close> for any integer: a minus sign in front of the digits of a negative one.\<close>

definition py_str :: "int \<Rightarrow> string" where
  "py_str i = (if i < 0 then CHR ''-'' # digits_of (nat (- i)) else digits_of (nat i))"

subsection \<open>Whitespace, case and affixes\<close>

text \<open>
  \<^verbatim>\<open>str.strip()\<close> removes the characters for which \<^verbatim>\<open>str.isspace\<close> holds from both ends;
  below code point 256 these are 9 to 13, 28 to 32, 133 and 160.
\<close>

definition py_isspace :: "char \<Rightarrow> bool" where
  "py_isspace c =
     (let n = (of_char c :: nat)
      in (9 \<le> n \<and> n \<le> 13) \<or> (28 \<le> n \<and> n \<le> 32) \<or> n = 133 \<or> n = 160)"

definition py_strip :: "string \<Rightarrow> string" where
  "py_strip s = rev (dropWhile py_isspace (rev (dropWhile py_isspace s)))"

text \<open>
  \<^verbatim>\<open>str.lower()\<close>: the upper-case letters below code point 256 are A to Z and 192 to 222
  without 215; each has its lower-case form 32 places further on.
\<close>

definition lower_char :: "char \<Rightarrow> char" where
  "lower_char c =
     (let n = (of_char c :: nat)
      in if (65 \<le> n \<and> n \<le> 90) \<or> (192 \<le> n \<and> n \<le> 214) \<or> (216 \<le> n \<and> n \<le> 222)
         then char_of (n + 32) else c)"

definition py_lower :: "string \<Rightarrow> string" where
  "py_lower s = map lower_char s"

definition py_startswith :: "string \<Rightarrow> string \<Rightarrow> bool" where
  "py_startswith s prefix = (take (length prefix) s = prefix)"

definition py_endswith :: "string \<Rightarrow> string \<Rightarrow> bool" where
  "py_endswith s suffix =
     (length suffix \<le> length s \<and> drop (length s - length suffix) s = suffix)"

subsection \<open>Paths\<close>

text \<open>
  \<^verbatim>\<open>os.path.join\<close> and \<^verbatim>\<open>os.path.splitext\<close> of the POSIX path module, for two
  components and for the separator \<open>/\<close>.
\<close>

definition os_path_join :: "string \<Rightarrow> string \<Rightarrow> string" where
  "os_path_join a b =
     (if py_startswith b ''/'' then b
      else if a = [] \<or> py_endswith a ''/'' then a @ b
      else a @ ''/'' @ b)"

text \<open>\<^verbatim>\<open>p.rfind(c)\<close>: the highest index at which \<open>c\<close> occurs, or \<open>-1\<close>.\<close>

definition py_rfind :: "string \<Rightarrow> char \<Rightarrow> int" where
  "py_rfind p c =
     (if c \<in> set p
      then int (length p) - 1 - int (length (takeWhile (\<lambda>x. x \<noteq> c) (rev p)))
      else - 1)"

text \<open>
  The loop of \<^verbatim>\<open>genericpath._splitext\<close> that skips leading dots:
  \<^verbatim>\<open>
    while filenameIndex < dotIndex:
        if p[filenameIndex:filenameIndex+1] != extsep:
            return p[:dotIndex], p[dotIndex:]
        filenameIndex += 1
  \<close>
  It tells whether a character other than the dot stands between the two indices.
\<close>

function has_stem :: "string \<Rightarrow> nat \<Rightarrow> nat \<Rightarrow> bool" where
  "has_stem p filenameIndex dotIndex =
     (if filenameIndex < dotIndex
      then (if take 1 (drop filenameIndex p) \<noteq> ''.'' then True
            else has_stem p (filenameIndex + 1) dotIndex)
      else False)"
  by pat_completeness auto
termination
  by (relation "measure (\<lambda>(p, filenameIndex, dotIndex). dotIndex - filenameIndex)") auto

declare has_stem.simps [simp del]

definition os_path_splitext :: "string \<Rightarrow> string \<times> string" where
  "os_path_splitext p =
     (let sepIndex = py_rfind p CHR ''/'';
          dotIndex = py_rfind p CHR ''.''
      in if dotIndex > sepIndex \<and> has_stem p (nat (sepIndex + 1)) (nat dotIndex)
         then (take (nat dotIndex) p, drop (nat dotIndex) p)
         else (p, []))"

section \<open>The world the script runs in\<close>

text \<open>
  Exceptions are values. \<open>OSError\<close> stands for every operating-system error other than
  the two subclasses the script names; \<open>ValueError\<close> is what the file-system calls raise
  for a path they cannot encode. Each carries its message.
\<close>

datatype py_exn =
    EOFError
  | FileNotFoundError string
  | PermissionError string
  | OSError string
  | ValueError string

fun is_OSError :: "py_exn \<Rightarrow> bool" where
  "is_OSError (FileNotFoundError m) = True"
| "is_OSError (PermissionError m) = True"
| "is_OSError (OSError m) = True"
| "is_OSError e = False"

fun exn_str :: "py_exn \<Rightarrow> string" where
  "exn_str EOFError = []"
| "exn_str (FileNotFoundError m) = m"
| "exn_str (PermissionError m) = m"
| "exn_str (OSError m) = m"
| "exn_str (ValueError m) = m"

text \<open>
  What the interpreter and the operating system provide is a parameter: the file-system
  calls over a disk of any type \<open>'fs\<close>, and \<^verbatim>\<open>int(text)\<close>, whose \<open>None\<close> is its
  \<open>ValueError\<close>. Only \<^verbatim>\<open>os.rename\<close> changes the disk; a call that fails leaves it as it
  was.
\<close>

record 'fs platform =
  os_getcwd :: "'fs \<Rightarrow> py_exn + string"
  os_listdir :: "'fs \<Rightarrow> string \<Rightarrow> py_exn + string list"
  os_path_isfile :: "'fs \<Rightarrow> string \<Rightarrow> bool"
  os_path_exists :: "'fs \<Rightarrow> string \<Rightarrow> bool"
  os_rename :: "'fs \<Rightarrow> string \<Rightarrow> string \<Rightarrow> py_exn + 'fs"
  int_of_str :: "string \<Rightarrow> int option"

text \<open>
  The calls the script makes are recorded in the order it makes them; a rename is
  recorded with its outcome.
\<close>

datatype os_call =
    Getcwd
  | Listdir string
  | Isfile string
  | Exists string
  | Rename string string bool

text \<open>
  The state: the lines still to be read from standard input, what has been written to
  standard output (one entry for each \<^verbatim>\<open>print\<close> and each prompt), the disk, and the calls
  made so far. Writing to standard output is taken not to fail.
\<close>

record 'fs world =
  stdin :: "string list"
  stdout :: "string list"
  disk :: 'fs
  syscalls :: "os_call list"

definition py_print :: "string \<Rightarrow> 'fs world \<Rightarrow> 'fs world" where
  "py_print s w = w\<lparr>stdout := stdout w @ [s]\<rparr>"

text \<open>\<^verbatim>\<open>input(prompt)\<close> writes the prompt and reads a line; at end of input it raises.\<close>

definition py_input :: "string \<Rightarrow> 'fs world \<Rightarrow> (py_exn + string) \<times> 'fs world" where
  "py_input prompt w =
     (case stdin w of
        [] \<Rightarrow> (Inl EOFError, w\<lparr>stdout := stdout w @ [prompt]\<rparr>)
      | line # rest \<Rightarrow> (Inr line, w\<lparr>stdin := rest, stdout := stdout w @ [prompt]\<rparr>))"

definition call_getcwd :: "'fs platform \<Rightarrow> 'fs world \<Rightarrow> (py_exn + string) \<times> 'fs world" where
  "call_getcwd pf w = (os_getcwd pf (disk w), w\<lparr>syscalls := syscalls w @ [Getcwd]\<rparr>)"

definition call_listdir ::
  "'fs platform \<Rightarrow> string \<Rightarrow> 'fs world \<Rightarrow> (py_exn + string list) \<times> 'fs world" where
  "call_listdir pf path w =
     (os_listdir pf (disk w) path, w\<lparr>syscalls := syscalls w @ [Listdir path]\<rparr>)"

definition call_isfile :: "'fs platform \<Rightarrow> string \<Rightarrow> 'fs world \<Rightarrow> bool \<times> 'fs world" where
  "call_isfile pf path w =
     (os_path_isfile pf (disk w) path, w\<lparr>syscalls := syscalls w @ [Isfile path]\<rparr>)"

definition call_exists :: "'fs platform \<Rightarrow> string \<Rightarrow> 'fs world \<Rightarrow> bool \<times> 'fs world" where
  "call_exists pf path w =
     (os_path_exists pf (disk w) path, w\<lparr>syscalls := syscalls w @ [Exists path]\<rparr>)"

definition call_rename ::
  "'fs platform \<Rightarrow> string \<Rightarrow> string \<Rightarrow> 'fs world \<Rightarrow> (py_exn + unit) \<times> 'fs world" where
  "call_rename pf src dst w =
     (case os_rename pf (disk w) src dst of
        Inl e \<Rightarrow> (Inl e, w\<lparr>syscalls := syscalls w @ [Rename src dst False]\<rparr>)
      | Inr d \<Rightarrow> (Inr (), w\<lparr>disk := d, syscalls := syscalls w @ [Rename src dst True]\<rparr>))"

section \<open>The script\<close>

subsection \<open>Suffix generator\<close>

text \<open>
  The loop of \<^verbatim>\<open>generate_suffix\<close>:
  \<^verbatim>\<open>
    while index > 0:
        index -= 1
        result = string.ascii_lowercase[index % 26] + result
        index //= 26
  \<close>
  Python's \<^verbatim>\<open>%\<close> and \<^verbatim>\<open>//\<close> with the positive divisor 26 are the floored
  \<open>mod\<close> and \<open>div\<close> of \<^typ>\<open>int\<close>. The index into the alphabet is a remainder
  modulo 26 and so always in range.
\<close>

function letters_loop :: "int \<Rightarrow> string \<Rightarrow> string" where
  "letters_loop index result =
     (if index > 0
      then letters_loop ((index - 1) div 26)
             (ascii_lowercase ! nat ((index - 1) mod 26) # result)
      else result)"
  by pat_completeness auto
termination
  by (relation "measure (\<lambda>(index, result). nat index)") auto

declare letters_loop.simps [simp del]

definition generate_suffix :: "int \<Rightarrow> int \<Rightarrow> string" where
  "generate_suffix index numbering_style =
     (if numbering_style = 1 then py_str index else letters_loop index [])"

subsection \<open>Preference collector\<close>

text \<open>The dictionary \<^verbatim>\<open>get_user_preferences\<close> returns, with its five keys.\<close>

record preferences =
  directory :: string
  common_name :: string
  numbering_style :: int
  start_index :: int
  extension_filter :: string

text \<open>
  The two prompting loops. Each round reads one line, so the lines left to read get fewer;
  when none is left \<^verbatim>\<open>input\<close> raises \<open>EOFError\<close>, which the loop does not catch.
  \<^verbatim>\<open>
    while True:
        try:
            choice = int(input("Enter your choice (1 or 2): "))
            if choice in [1, 2]:
                break
            else:
                print("Please enter 1 or 2")
        except ValueError:
            print("Please enter a valid number (1 or 2)")
  \<close>
\<close>

function choice_loop :: "'fs platform \<Rightarrow> 'fs world \<Rightarrow> (py_exn + int) \<times> 'fs world" where
  "choice_loop pf w =
     (case py_input ''Enter your choice (1 or 2): '' w of
        (Inl e, w1) \<Rightarrow> (Inl e, w1)
      | (Inr line, w1) \<Rightarrow>
          (case int_of_str pf line of
             None \<Rightarrow> choice_loop pf (py_print ''Please enter a valid number (1 or 2)'' w1)
           | Some choice \<Rightarrow>
               if choice \<in> set [1, 2] then (Inr choice, w1)
               else choice_loop pf (py_print ''Please enter 1 or 2'' w1)))"
  by pat_completeness auto
termination
  by (relation "measure (\<lambda>(pf, w). length (stdin w))")
     (auto simp: py_input_def py_print_def split: list.splits)

declare choice_loop.simps [simp del]

text \<open>
  \<^verbatim>\<open>
    while True:
        try:
            start_index = int(input("Enter starting number/letter index (default is 1): ") or "1")
            if start_index >= 0:
                break
            else:
                print("Please enter a non-negative number")
        except ValueError:
            print("Please enter a valid number")
  \<close>
\<close>

function start_index_loop :: "'fs platform \<Rightarrow> 'fs world \<Rightarrow> (py_exn + int) \<times> 'fs world" where
  "start_index_loop pf w =
     (case py_input ''Enter starting number/letter index (default is 1): '' w of
        (Inl e, w1) \<Rightarrow> (Inl e, w1)
      | (Inr line, w1) \<Rightarrow>
          (case int_of_str pf (if line = [] then ''1'' else line) of
             None \<Rightarrow> start_index_loop pf (py_print ''Please enter a valid number'' w1)
           | Some start \<Rightarrow>
               if start \<ge> 0 then (Inr start, w1)
               else start_index_loop pf (py_print ''Please enter a non-negative number'' w1)))"
  by pat_completeness auto
termination
  by (relation "measure (\<lambda>(pf, w). length (stdin w))")
     (auto simp: py_input_def py_print_def split: list.splits)

declare start_index_loop.simps [simp del]

definition get_user_preferences ::
  "'fs platform \<Rightarrow> 'fs world \<Rightarrow> (py_exn + preferences option) \<times> 'fs world" where
  "get_user_preferences pf w =
     (let w0 = py_print ''=== File Renaming Automation ==='' w in
      case py_input ''Enter the directory path (or press Enter for current directory): '' w0 of
        (Inl e, w1) \<Rightarrow> (Inl e, w1)
      | (Inr line1, w1) \<Rightarrow>
      (case (if py_strip line1 = [] then call_getcwd pf w1 else (Inr (py_strip line1), w1)) of
        (Inl e, w2) \<Rightarrow> (Inl e, w2)
      | (Inr dir, w2) \<Rightarrow>
      (case py_input ''Enter the common name for all files: '' w2 of
        (Inl e, w3) \<Rightarrow> (Inl e, w3)
      | (Inr line2, w3) \<Rightarrow>
          if py_strip line2 = []
          then (Inr None, py_print ''Error: Common name cannot be empty!'' w3)
          else
            let w4 = py_print (CHR 0x0A # ''Choose numbering style:'') w3;
                w5 = py_print ''1. Numbers (file_1, file_2, ...)'' w4;
                w6 = py_print ''2. Letters (file_a, file_b, ...)'' w5 in
            (case choice_loop pf w6 of
               (Inl e, w7) \<Rightarrow> (Inl e, w7)
             | (Inr choice, w7) \<Rightarrow>
            (case start_index_loop pf w7 of
               (Inl e, w8) \<Rightarrow> (Inl e, w8)
             | (Inr start, w8) \<Rightarrow>
            (case py_input (''Enter file extension to filter by (e.g., '' @ [CHR 0x27]
                             @ ''.jpg'' @ [CHR 0x27] @ '', '' @ [CHR 0x27] @ ''.png''
                             @ [CHR 0x27] @ '', or press Enter for all files): '') w8 of
               (Inl e, w9) \<Rightarrow> (Inl e, w9)
             | (Inr line5, w9) \<Rightarrow>
                 (Inr (Some \<lparr>directory = dir,
                             common_name = py_strip line2,
                             numbering_style = choice,
                             start_index = start,
                             extension_filter = py_lower (py_strip line5)\<rparr>), w9)))))))"

subsection \<open>File lister\<close>

text \<open>
  The comprehension
  \<^verbatim>\<open>[f for f in os.listdir(directory) if os.path.isfile(os.path.join(directory, f))]\<close>
  over the names already listed.
\<close>

fun isfile_filter ::
  "'fs platform \<Rightarrow> string \<Rightarrow> string list \<Rightarrow> 'fs world \<Rightarrow> string list \<times> 'fs world" where
  "isfile_filter pf dir [] w = ([], w)"
| "isfile_filter pf dir (f # names) w =
     (case call_isfile pf (os_path_join dir f) w of
        (keep, w1) \<Rightarrow>
          (case isfile_filter pf dir names w1 of
             (kept, w2) \<Rightarrow> (if keep then f # kept else kept, w2)))"

definition get_files_to_rename ::
  "'fs platform \<Rightarrow> string \<Rightarrow> string \<Rightarrow> 'fs world
     \<Rightarrow> (py_exn + string list option) \<times> 'fs world" where
  "get_files_to_rename pf dir ext w =
     (case call_listdir pf dir w of
        (Inl e, w1) \<Rightarrow>
          (case e of
             FileNotFoundError m \<Rightarrow>
               (Inr None, py_print (''Error: Directory '' @ [CHR 0x27] @ dir @ [CHR 0x27]
                                     @ '' not found!'') w1)
           | PermissionError m \<Rightarrow>
               (Inr None, py_print (''Error: Permission denied to access directory ''
                                     @ [CHR 0x27] @ dir @ [CHR 0x27] @ ''!'') w1)
           | _ \<Rightarrow> (Inl e, w1))
      | (Inr names, w1) \<Rightarrow>
          (case isfile_filter pf dir names w1 of
             (all_files, w2) \<Rightarrow>
               if ext \<noteq> [] then
                 let ext1 = (if \<not> py_startswith ext ''.'' then ''.'' @ ext else ext);
                     filtered_files = filter (\<lambda>f. py_endswith (py_lower f) ext1) all_files
                 in (Inr (Some filtered_files),
                     py_print (''Found '' @ py_str (int (length filtered_files))
                               @ '' files with extension '' @ [CHR 0x27] @ ext1 @ [CHR 0x27]) w2)
               else (Inr (Some all_files),
                     py_print (''Found '' @ py_str (int (length all_files))
                               @ '' files in directory'') w2)))"

subsection \<open>Renamer and preview\<close>

text \<open>\<^verbatim>\<open>enumerate(files, start=start_index)\<close>.\<close>

primrec py_enumerate :: "int \<Rightarrow> 'a list \<Rightarrow> (int \<times> 'a) list" where
  "py_enumerate start [] = []"
| "py_enumerate start (x # xs) = (start, x) # py_enumerate (start + 1) xs"

text \<open>
  The body of the loop of \<^verbatim>\<open>rename_files\<close>, over the enumerated files, with the count
  so far. An exception of \<^verbatim>\<open>os.rename\<close> that is not an \<open>OSError\<close> is not caught and
  ends the loop.
\<close>

fun rename_loop ::
  "'fs platform \<Rightarrow> string \<Rightarrow> string \<Rightarrow> int \<Rightarrow> (int \<times> string) list \<Rightarrow> nat \<Rightarrow> 'fs world
     \<Rightarrow> (py_exn + nat) \<times> 'fs world" where
  "rename_loop pf dir name style [] renamed_count w = (Inr renamed_count, w)"
| "rename_loop pf dir name style ((i, filename) # rest) renamed_count w =
     (let file_extension = snd (os_path_splitext filename);
          suffix = generate_suffix i style;
          new_filename = name @ ''_'' @ suffix @ file_extension;
          new_filepath = os_path_join dir new_filename;
          old_filepath = os_path_join dir filename
      in case call_exists pf new_filepath w of
           (True, w1) \<Rightarrow>
             rename_loop pf dir name style rest renamed_count
               (py_print (''Warning: '' @ new_filename @ '' already exists! Skipping ''
                          @ filename) w1)
         | (False, w1) \<Rightarrow>
             (case call_rename pf old_filepath new_filepath w1 of
                (Inr u, w2) \<Rightarrow>
                  rename_loop pf dir name style rest (renamed_count + 1)
                    (py_print (''Renamed: '' @ filename @ '' -> '' @ new_filename) w2)
              | (Inl e, w2) \<Rightarrow>
                  if is_OSError e
                  then rename_loop pf dir name style rest renamed_count
                         (py_print (''Error renaming '' @ filename @ '': '' @ exn_str e) w2)
                  else (Inl e, w2)))"

definition rename_files ::
  "'fs platform \<Rightarrow> string \<Rightarrow> string list \<Rightarrow> string \<Rightarrow> int \<Rightarrow> int \<Rightarrow> 'fs world
     \<Rightarrow> (py_exn + nat) \<times> 'fs world" where
  "rename_files pf dir files name style start w =
     rename_loop pf dir name style (py_enumerate start files) 0
       (py_print (CHR 0x0A # ''Renaming '' @ py_str (int (length files)) @ '' files...'') w)"

fun preview_loop :: "string \<Rightarrow> int \<Rightarrow> (int \<times> string) list \<Rightarrow> 'fs world \<Rightarrow> 'fs world" where
  "preview_loop name style [] w = w"
| "preview_loop name style ((i, filename) # rest) w =
     (let file_extension = snd (os_path_splitext filename);
          suffix = generate_suffix i style;
          new_filename = name @ ''_'' @ suffix @ file_extension
      in preview_loop name style rest (py_print (filename @ '' -> '' @ new_filename) w))"

definition preview_changes ::
  "string \<Rightarrow> string list \<Rightarrow> string \<Rightarrow> int \<Rightarrow> int \<Rightarrow> 'fs world \<Rightarrow> (py_exn + bool) \<times> 'fs world" where
  "preview_changes dir files name style start w =
     (let w1 = py_print (CHR 0x0A # ''=== PREVIEW OF CHANGES ==='') w;
          w2 = py_print ''Old names -> New names'' w1;
          w3 = py_print (replicate 40 CHR ''-'') w2;
          w4 = preview_loop name style (py_enumerate start (take 5 files)) w3;
          w5 = (if length files > 5
                then py_print (''... and '' @ py_str (int (length files) - 5) @ '' more files'') w4
                else w4)
      in case py_input (CHR 0x0A # ''Proceed with renaming? (y/n): '') w5 of
           (Inl e, w6) \<Rightarrow> (Inl e, w6)
         | (Inr line, w6) \<Rightarrow> (Inr (py_lower (py_strip line) = ''y''), w6))"

subsection \<open>The pipeline\<close>

text \<open>
  \<^verbatim>\<open>if not files:\<close> holds for \<open>None\<close> and for the empty list alike; both take the one
  branch that is not a non-empty list.
\<close>

definition main :: "'fs platform \<Rightarrow> 'fs world \<Rightarrow> (py_exn + unit) \<times> 'fs world" where
  "main pf w =
     (case get_user_preferences pf w of
        (Inl e, w1) \<Rightarrow> (Inl e, w1)
      | (Inr None, w1) \<Rightarrow> (Inr (), w1)
      | (Inr (Some prefs), w1) \<Rightarrow>
      (case get_files_to_rename pf (directory prefs) (extension_filter prefs) w1 of
        (Inl e, w2) \<Rightarrow> (Inl e, w2)
      | (Inr (Some (f # fs)), w2) \<Rightarrow>
          (case preview_changes (directory prefs) (f # fs) (common_name prefs)
                  (numbering_style prefs) (start_index prefs) w2 of
             (Inl e, w3) \<Rightarrow> (Inl e, w3)
           | (Inr False, w3) \<Rightarrow> (Inr (), py_print ''Renaming cancelled by user.'' w3)
           | (Inr True, w3) \<Rightarrow>
               (case rename_files pf (directory prefs) (f # fs) (common_name prefs)
                       (numbering_style prefs) (start_index prefs) w3 of
                  (Inl e, w4) \<Rightarrow> (Inl e, w4)
                | (Inr renamed_count, w4) \<Rightarrow>
                    (Inr (),
                     py_print (''Successfully renamed '' @ py_str (int renamed_count)
                               @ '' out of '' @ py_str (int (length (f # fs))) @ '' files'')
                       (py_print (CHR 0x0A # ''=== RENAMING COMPLETE ==='') w4))))
      | (Inr files, w2) \<Rightarrow> (Inr (), py_print ''No files found to rename!'' w2)))"

section \<open>Reference notions for the claims\<close>

text \<open>
  Reading a decimal numeral and reading a bijective base-26 numeral (letters \<open>a\<close> to
  \<open>z\<close> standing for 1 to 26, most significant first), as the specification describes
  them. The suffix generator is compared with these.
\<close>

definition digit_value :: "char \<Rightarrow> nat" where
  "digit_value c = of_char c - 48"

definition decimal_value :: "string \<Rightarrow> nat" where
  "decimal_value s = foldl (\<lambda>a c. 10 * a + digit_value c) 0 s"

definition letter_rank :: "char \<Rightarrow> nat" where
  "letter_rank c = of_char c - 96"

definition bijective26_value :: "string \<Rightarrow> nat" where
  "bijective26_value s = foldl (\<lambda>a c. 26 * a + letter_rank c) 0 s"

text \<open>
  The loop of the suffix generator once more, as a \<open>while\<close> over the pair of its two
  variables with no termination argument given: \<^const>\<open>while_option\<close> is \<open>None\<close> for a
  loop that runs forever, so that leaving the loop is a statement to prove.
\<close>

definition suffix_while :: "int \<Rightarrow> (int \<times> string) option" where
  "suffix_while index =
     while_option (\<lambda>(index, result). index > 0)
       (\<lambda>(index, result).
          ((index - 1) div 26, ascii_lowercase ! nat ((index - 1) mod 26) # result))
       (index, [])"

text \<open>
  The extension filter with a leading dot put in front where it has none, as the
  specification words it.
\<close>

definition dot_normalized :: "string \<Rightarrow> string" where
  "dot_normalized ext =
     (case ext of [] \<Rightarrow> [] | c # cs \<Rightarrow> if c = CHR ''.'' then ext else CHR ''.'' # ext)"

subsection \<open>A small platform to run the script on\<close>

text \<open>
  A disk with the single directory \<open>/data\<close>: a list of entries, each a name and what it
  is. A locked file is a regular file that cannot be renamed. Numbers are read from
  plain decimal digits.
\<close>

datatype entry_kind = RegularFile | LockedFile | Directory

type_synonym demo_disk = "(string \<times> entry_kind) list"

definition demo_path :: "string \<Rightarrow> string" where
  "demo_path n = ''/data/'' @ n"

definition parse_decimal :: "string \<Rightarrow> int option" where
  "parse_decimal s =
     (if s \<noteq> [] \<and> list_all (\<lambda>c. c \<in> set ''0123456789'') s
      then Some (int (decimal_value s)) else None)"

definition demo_rename :: "demo_disk \<Rightarrow> string \<Rightarrow> string \<Rightarrow> py_exn + demo_disk" where
  "demo_rename d src dst =
     (case find (\<lambda>(n, k). demo_path n = src) d of
        None \<Rightarrow> Inl (FileNotFoundError src)
      | Some (n, k) \<Rightarrow>
          if k = LockedFile then Inl (PermissionError src)
          else Inr (map (\<lambda>(m, j). if m = n then (drop 6 dst, j) else (m, j))
                     (filter (\<lambda>(m, j). demo_path m \<noteq> dst) d)))"

definition demo_platform :: "demo_disk platform" where
  "demo_platform =
     \<lparr>os_getcwd = (\<lambda>d. Inr ''/data''),
      os_listdir = (\<lambda>d path. if path = ''/data'' then Inr (map fst d)
                              else Inl (FileNotFoundError path)),
      os_path_isfile = (\<lambda>d path. list_ex (\<lambda>(n, k). demo_path n = path \<and> k \<noteq> Directory) d),
      os_path_exists = (\<lambda>d path. list_ex (\<lambda>(n, k). demo_path n = path) d),
      os_rename = demo_rename,
      int_of_str = parse_decimal\<rparr>"

definition demo_world :: "string list \<Rightarrow> demo_disk \<Rightarrow> demo_disk world" where
  "demo_world lines d = \<lparr>stdin = lines, stdout = [], disk = d, syscalls = []\<rparr>"

subsection \<open>A disk with symbolic links\<close>

text \<open>
  The directory \<open>/data\<close> once more, where an entry is a plain file or a symbolic link
  whose target is missing. \<^verbatim>\<open>os.path.exists\<close> and \<^verbatim>\<open>os.path.isfile\<close> follow links and
  so answer false for such a link, while \<^verbatim>\<open>os.listdir\<close> lists it and \<^verbatim>\<open>os.rename\<close>
  onto its path replaces it, as it replaces any entry that is not a directory.
\<close>

datatype node = PlainFile | DanglingLink

type_synonym link_disk = "(string \<times> node) list"

definition link_rename :: "link_disk \<Rightarrow> string \<Rightarrow> string \<Rightarrow> py_exn + link_disk" where
  "link_rename d src dst =
     (case find (\<lambda>(n, k). demo_path n = src) d of
        None \<Rightarrow> Inl (FileNotFoundError src)
      | Some (n, k) \<Rightarrow>
          Inr (map (\<lambda>(m, j). if m = n then (drop 6 dst, j) else (m, j))
                (filter (\<lambda>(m, j). demo_path m \<noteq> dst) d)))"

definition link_platform :: "link_disk platform" where
  "link_platform =
     \<lparr>os_getcwd = (\<lambda>d. Inr ''/data''),
      os_listdir = (\<lambda>d path. if path = ''/data'' then Inr (map fst d)
                              else Inl (FileNotFoundError path)),
      os_path_isfile = (\<lambda>d path. list_ex (\<lambda>(n, k). demo_path n = path \<and> k = PlainFile) d),
      os_path_exists = (\<lambda>d path. list_ex (\<lambda>(n, k). demo_path n = path \<and> k = PlainFile) d),
      os_rename = link_rename,
      int_of_str = parse_decimal\<rparr>"

subsection \<open>The rename plan and the record of calls\<close>

text \<open>
  The new name the specification gives the file at position \<open>p\<close> (counted from 0):
  base name, underscore, the suffix of \<open>startIndex + p\<close>, and the extension of the
  original name.
\<close>

definition planned_name :: "string \<Rightarrow> int \<Rightarrow> int \<Rightarrow> nat \<Rightarrow> string \<Rightarrow> string" where
  "planned_name name style start p filename =
     name @ ''_'' @ generate_suffix (start + int p) style @ snd (os_path_splitext filename)"

text \<open>
  Read off the record of calls: the paths whose existence was asked for, the renames
  that were requested, and how many of these succeeded.
\<close>

fun exists_calls :: "os_call list \<Rightarrow> string list" where
  "exists_calls [] = []"
| "exists_calls (Exists path # cs) = path # exists_calls cs"
| "exists_calls (c # cs) = exists_calls cs"

fun rename_calls :: "os_call list \<Rightarrow> (string \<times> string) list" where
  "rename_calls [] = []"
| "rename_calls (Rename src dst ok # cs) = (src, dst) # rename_calls cs"
| "rename_calls (c # cs) = rename_calls cs"

fun successful_renames :: "os_call list \<Rightarrow> nat" where
  "successful_renames [] = 0"
| "successful_renames (Rename src dst ok # cs) =
     (if ok then Suc (successful_renames cs) else successful_renames cs)"
| "successful_renames (c # cs) = successful_renames cs"

section \<open>Properties of the suffix generator\<close>

lemma digit_value_digit_char: "d < 10 \<Longrightarrow> digit_value (digit_char d) = d"
proof -
  assume "d < 10"
  then have "d \<in> set [0..<10]" by simp
  then show ?thesis
    unfolding digit_char_def digit_value_def
    by (simp add: upt_rec) (auto)
qed

lemma digit_char_in_digits: "d < 10 \<Longrightarrow> digit_char d \<in> set ''0123456789''"
  unfolding digit_char_def by (rule nth_mem) simp

lemma letter_rank_nth: "k < 26 \<Longrightarrow> letter_rank (ascii_lowercase ! k) = Suc k"
proof -
  assume "k < 26"
  then have "k \<in> set [0..<26]" by simp
  then show ?thesis
    unfolding ascii_lowercase_def letter_rank_def
    by (simp add: upt_rec) (auto)
qed

lemma length_ascii_lowercase: "length ascii_lowercase = 26"
  by (simp add: ascii_lowercase_def)

lemma letter_index_in_range: "nat (i mod 26) < length ascii_lowercase"
  by (simp add: length_ascii_lowercase)

lemma rank_of_letter:
  assumes "c \<in> set ascii_lowercase"
  shows "1 \<le> letter_rank c \<and> letter_rank c \<le> 26 \<and> ascii_lowercase ! (letter_rank c - 1) = c"
  using assms unfolding ascii_lowercase_def letter_rank_def by auto

lemma letters_loop_nonpos: "index \<le> 0 \<Longrightarrow> letters_loop index result = result"
  by (simp add: letters_loop.simps [of index])

lemma letters_loop_step:
  "index > 0 \<Longrightarrow> letters_loop index result =
     letters_loop ((index - 1) div 26) (ascii_lowercase ! nat ((index - 1) mod 26) # result)"
  by (simp add: letters_loop.simps [of index])

lemma letters_loop_acc: "letters_loop i r = letters_loop i [] @ r"
proof (induction "nat i" arbitrary: i r rule: less_induct)
  case less
  show ?case
  proof (cases "i > 0")
    case True
    let ?j = "(i - 1) div 26"
    let ?c = "ascii_lowercase ! nat ((i - 1) mod 26)"
    have smaller: "nat ?j < nat i" using True by simp
    have "letters_loop i r = letters_loop ?j [] @ ?c # r"
      using letters_loop_step [OF True, of r] less [OF smaller, of "?c # r"] by simp
    moreover have "letters_loop i [] = letters_loop ?j [] @ [?c]"
      using letters_loop_step [OF True, of "[]"] less [OF smaller, of "[?c]"] by simp
    ultimately show ?thesis by simp
  next
    case False
    then show ?thesis by (simp add: letters_loop_nonpos)
  qed
qed

lemma letters_loop_snoc:
  "index > 0 \<Longrightarrow> letters_loop index [] =
     letters_loop ((index - 1) div 26) [] @ [ascii_lowercase ! nat ((index - 1) mod 26)]"
  using letters_loop_step [of index "[]"] letters_loop_acc [of "(index - 1) div 26" "[ascii_lowercase ! nat ((index - 1) mod 26)]"]
  by simp

lemma letters_loop_alphabet: "set (letters_loop i []) \<subseteq> set ascii_lowercase"
proof (induction "nat i" arbitrary: i rule: less_induct)
  case less
  show ?case
  proof (cases "i > 0")
    case True
    have smaller: "nat ((i - 1) div 26) < nat i" using True by simp
    have "ascii_lowercase ! nat ((i - 1) mod 26) \<in> set ascii_lowercase"
      by (rule nth_mem) (rule letter_index_in_range)
    then show ?thesis
      using less [OF smaller] by (simp add: letters_loop_snoc [OF True])
  next
    case False
    then show ?thesis by (simp add: letters_loop_nonpos)
  qed
qed

lemma bijective26_value_snoc:
  "bijective26_value (s @ [c]) = 26 * bijective26_value s + letter_rank c"
  by (simp add: bijective26_value_def)

lemma letters_loop_value: "0 \<le> i \<Longrightarrow> int (bijective26_value (letters_loop i [])) = i"
proof (induction "nat i" arbitrary: i rule: less_induct)
  case less
  show ?case
  proof (cases "i > 0")
    case True
    let ?j = "(i - 1) div 26"
    let ?k = "nat ((i - 1) mod 26)"
    have smaller: "nat ?j < nat i" and nonneg: "0 \<le> ?j" using True by simp_all
    have k: "?k < 26" by simp
    have "int (bijective26_value (letters_loop i [])) = 26 * ?j + int (Suc ?k)"
      using less(1) [OF smaller nonneg] letter_rank_nth [OF k]
      by (simp add: letters_loop_snoc [OF True] bijective26_value_snoc)
    also have "\<dots> = i" by simp
    finally show ?thesis .
  next
    case False
    with less(2) have "i = 0" by simp
    then show ?thesis by (simp add: letters_loop_nonpos bijective26_value_def)
  qed
qed

lemma letters_loop_unique:
  "set s \<subseteq> set ascii_lowercase \<Longrightarrow> letters_loop (int (bijective26_value s)) [] = s"
proof (induction s rule: rev_induct)
  case Nil
  then show ?case by (simp add: bijective26_value_def letters_loop_nonpos)
next
  case (snoc c s)
  let ?v = "int (bijective26_value s)"
  let ?n = "int (bijective26_value (s @ [c]))"
  from snoc.prems have c: "c \<in> set ascii_lowercase" and s: "set s \<subseteq> set ascii_lowercase"
    by simp_all
  from rank_of_letter [OF c]
  have r1: "1 \<le> letter_rank c" and r2: "letter_rank c \<le> 26"
    and r3: "ascii_lowercase ! (letter_rank c - 1) = c" by simp_all
  have n: "?n = 26 * ?v + int (letter_rank c)"
    by (simp add: bijective26_value_snoc)
  have pos: "?n > 0" using n r1 by simp
  have d: "(?n - 1) div 26 = ?v" using n r1 r2 by simp
  have "?n - 1 = (int (letter_rank c) - 1) + 26 * ?v" using n by simp
  then have "(?n - 1) mod 26 = (int (letter_rank c) - 1) mod 26" by (simp only: mod_mult_self2)
  then have "(?n - 1) mod 26 = int (letter_rank c) - 1" using r1 r2 by simp
  then have m: "nat ((?n - 1) mod 26) = letter_rank c - 1" using r1 by simp
  show ?case
    using letters_loop_snoc [OF pos] snoc.IH [OF s] r3 by (simp only: d m)
qed

lemma digits_of_value: "decimal_value (digits_of n) = n"
proof (induction n rule: digits_of.induct)
  case (1 n)
  show ?case
  proof (cases "n < 10")
    case True
    then show ?thesis
      by (simp add: digits_of.simps [of n] decimal_value_def digit_value_digit_char)
  next
    case False
    have "decimal_value (digits_of n) = 10 * decimal_value (digits_of (n div 10)) + digit_value (digit_char (n mod 10))"
      using False by (simp add: digits_of.simps [of n] decimal_value_def)
    then show ?thesis using "1.IH" [OF False] by (simp add: digit_value_digit_char)
  qed
qed

lemma digits_of_digits: "set (digits_of n) \<subseteq> set ''0123456789''"
proof (induction n rule: digits_of.induct)
  case (1 n)
  show ?case
  proof (cases "n < 10")
    case True
    then show ?thesis
      using digit_char_in_digits [of n] by (simp add: digits_of.simps [of n])
  next
    case False
    then show ?thesis
      using "1.IH" [OF False] digit_char_in_digits [of "n mod 10"]
      by (simp add: digits_of.simps [of n])
  qed
qed

lemma digits_of_nonempty: "digits_of n \<noteq> []"
  by (simp add: digits_of.simps [of n])

lemma digits_of_no_leading_zero: "0 < n \<Longrightarrow> hd (digits_of n) \<noteq> CHR ''0''"
proof (induction n rule: digits_of.induct)
  case (1 n)
  show ?case
  proof (cases "n < 10")
    case True
    with "1.prems" have "n \<in> set [1..<10]" by simp
    then show ?thesis using True
      by (simp add: digits_of.simps [of n] digit_char_def upt_rec) auto
  next
    case False
    then have "0 < n div 10" by simp
    then show ?thesis
      using "1.IH" [OF False] False digits_of_nonempty [of "n div 10"]
      by (simp add: digits_of.simps [of n])
  qed
qed


text \<open>
  Claim C1. For every index from 1 on, the suffix under the numeric style (1) is
  \<^verbatim>\<open>str(index)\<close>: decimal digits only, no leading zero, reading back as the index.
  Under the alphabetic style (2) it is the bijective base-26 numeral of the index in
  lowercase letters: letters only, reading back as the index, and the only such string.
  In particular 1, 2, 26, 27, 28, 52, 53 give a, b, z, aa, ab, az, ba.
\<close>

theorem generate_suffix_encoding:
  "(1 \<le> index \<longrightarrow>
      generate_suffix index 1 = py_str index
    \<and> set (generate_suffix index 1) \<subseteq> set ''0123456789''
    \<and> hd (generate_suffix index 1) \<noteq> CHR ''0''
    \<and> int (decimal_value (generate_suffix index 1)) = index
    \<and> set (generate_suffix index 2) \<subseteq> set ascii_lowercase
    \<and> int (bijective26_value (generate_suffix index 2)) = index
    \<and> (\<forall>s. set s \<subseteq> set ascii_lowercase \<and> int (bijective26_value s) = index
           \<longrightarrow> s = generate_suffix index 2))
   \<and> generate_suffix 1 2 = ''a'' \<and> generate_suffix 2 2 = ''b''
   \<and> generate_suffix 26 2 = ''z'' \<and> generate_suffix 27 2 = ''aa''
   \<and> generate_suffix 28 2 = ''ab'' \<and> generate_suffix 52 2 = ''az''
   \<and> generate_suffix 53 2 = ''ba''"
proof -
  have general: "generate_suffix index 1 = py_str index
    \<and> set (generate_suffix index 1) \<subseteq> set ''0123456789''
    \<and> hd (generate_suffix index 1) \<noteq> CHR ''0''
    \<and> int (decimal_value (generate_suffix index 1)) = index
    \<and> set (generate_suffix index 2) \<subseteq> set ascii_lowercase
    \<and> int (bijective26_value (generate_suffix index 2)) = index
    \<and> (\<forall>s. set s \<subseteq> set ascii_lowercase \<and> int (bijective26_value s) = index
           \<longrightarrow> s = generate_suffix index 2)" if pos: "1 \<le> index"
  proof -
    have numeric: "generate_suffix index 1 = digits_of (nat index)"
      using pos by (simp add: generate_suffix_def py_str_def)
    have alphabetic: "generate_suffix index 2 = letters_loop index []"
      by (simp add: generate_suffix_def)
    have n1: "generate_suffix index 1 = py_str index"
      by (simp add: generate_suffix_def)
    have n2: "set (generate_suffix index 1) \<subseteq> set ''0123456789''"
      unfolding numeric by (rule digits_of_digits)
    have n3: "hd (generate_suffix index 1) \<noteq> CHR ''0''"
      unfolding numeric using pos by (intro digits_of_no_leading_zero) simp
    have n4: "int (decimal_value (generate_suffix index 1)) = index"
      unfolding numeric using pos by (simp add: digits_of_value)
    have a1: "set (generate_suffix index 2) \<subseteq> set ascii_lowercase"
      unfolding alphabetic by (rule letters_loop_alphabet)
    have a2: "int (bijective26_value (generate_suffix index 2)) = index"
      unfolding alphabetic using pos by (intro letters_loop_value) simp
    have a3: "\<forall>s. set s \<subseteq> set ascii_lowercase \<and> int (bijective26_value s) = index
           \<longrightarrow> s = generate_suffix index 2"
      unfolding alphabetic using letters_loop_unique by auto
    from n1 n2 n3 n4 a1 a2 a3 show ?thesis by (intro conjI)
  qed
  have examples: "generate_suffix 1 2 = ''a''" "generate_suffix 2 2 = ''b''"
    "generate_suffix 26 2 = ''z''" "generate_suffix 27 2 = ''aa''"
    "generate_suffix 28 2 = ''ab''" "generate_suffix 52 2 = ''az''"
    "generate_suffix 53 2 = ''ba''"
    by (simp_all add: generate_suffix_def letters_loop.simps ascii_lowercase_def)
  from general examples show ?thesis by blast
qed

theorem generate_suffix_encoding_witness:
  "(1::int) \<le> 703
   \<and> generate_suffix 703 1 = ''703''
   \<and> int (decimal_value (generate_suffix 703 1)) = 703
   \<and> generate_suffix 703 2 = ''aaa''
   \<and> int (bijective26_value (generate_suffix 703 2)) = 703"
proof -
  have n: "generate_suffix 703 1 = ''703''"
    by (simp add: generate_suffix_def py_str_def digits_of.simps digit_char_def)
  have a: "generate_suffix 703 2 = ''aaa''"
    by (simp add: generate_suffix_def letters_loop.simps ascii_lowercase_def)
  have h: "(1::int) \<le> 703" by simp
  have "int (decimal_value (generate_suffix 703 1)) = 703
      \<and> int (bijective26_value (generate_suffix 703 2)) = 703"
    using h generate_suffix_encoding [of 703] by blast
  with h n a show ?thesis by blast
qed

lemma div26_bounds: "1 \<le> (i::int) \<Longrightarrow> 0 \<le> (i - 1) div 26 \<and> (i - 1) div 26 < i"
proof -
  assume a: "1 \<le> i"
  have "26 * ((i - 1) div 26) \<le> i - 1" by simp
  moreover have "0 \<le> (i - 1) div 26" using a by simp
  ultimately show ?thesis by linarith
qed

lemma while_letters:
  "while_option (\<lambda>(index, result). index > 0)
       (\<lambda>(index, result).
          ((index - 1) div 26, ascii_lowercase ! nat ((index - 1) mod 26) # result))
       (i, r) = Some (min i 0, letters_loop i r)"
proof (induction "nat i" arbitrary: i r rule: less_induct)
  case less
  show ?case
  proof (cases "i > 0")
    case True
    have smaller: "nat ((i - 1) div 26) < nat i" using True by simp
    have m: "min ((i - 1) div 26) 0 = min i 0" using True by simp
    show ?thesis
      using True less [OF smaller, of "ascii_lowercase ! nat ((i - 1) mod 26) # r"]
      by (subst while_option_unfold) (simp add: letters_loop_step [OF True] m)
  next
    case False
    then show ?thesis
      by (subst while_option_unfold) (simp add: letters_loop_nonpos)
  qed
qed

lemma letters_loop_length: "length (letters_loop i []) \<le> nat i"
proof (induction "nat i" arbitrary: i rule: less_induct)
  case less
  show ?case
  proof (cases "i > 0")
    case True
    have smaller: "nat ((i - 1) div 26) < nat i" using True by simp
    have "length (letters_loop i []) = Suc (length (letters_loop ((i - 1) div 26) []))"
      by (simp add: letters_loop_snoc [OF True])
    then show ?thesis
      using less [OF smaller] smaller by linarith
  next
    case False
    then show ?thesis by (simp add: letters_loop_nonpos)
  qed
qed

text \<open>
  Claim C9. The loop of the suffix generator leaves for every integer index, with the
  result the generator returns and the loop variable at 0 (at the index itself when
  that is negative). From an index of at least 1 one round goes to
  \<open>(index - 1) div 26\<close>, which is smaller and not negative; for an index of at most 0
  the body does not run and the result is the empty string. The rounds number at most
  the index, one for each letter of the result.
\<close>

theorem generate_suffix_terminates:
  "suffix_while index = Some (min index 0, generate_suffix index 2)
   \<and> (1 \<le> index \<longrightarrow>
         0 \<le> (index - 1) div 26 \<and> (index - 1) div 26 < index
       \<and> letters_loop index result =
           letters_loop ((index - 1) div 26)
             (ascii_lowercase ! nat ((index - 1) mod 26) # result))
   \<and> (index \<le> 0 \<longrightarrow>
         letters_loop index result = result
       \<and> suffix_while index = Some (index, [])
       \<and> generate_suffix index 2 = [])
   \<and> length (generate_suffix index 2) \<le> nat index"
proof -
  have alphabetic: "generate_suffix index 2 = letters_loop index []"
    by (simp add: generate_suffix_def)
  have leaves: "suffix_while index = Some (min index 0, generate_suffix index 2)"
    unfolding suffix_while_def alphabetic by (rule while_letters)
  have decreases: "0 \<le> (index - 1) div 26 \<and> (index - 1) div 26 < index
       \<and> letters_loop index result =
           letters_loop ((index - 1) div 26)
             (ascii_lowercase ! nat ((index - 1) mod 26) # result)" if "1 \<le> index"
    using that letters_loop_step [of index result] div26_bounds [of index] by simp
  have skipped: "letters_loop index result = result
       \<and> suffix_while index = Some (index, [])
       \<and> generate_suffix index 2 = []" if "index \<le> 0"
    using that leaves by (simp add: alphabetic letters_loop_nonpos min_def)
  have bounded: "length (generate_suffix index 2) \<le> nat index"
    unfolding alphabetic by (rule letters_loop_length)
  from leaves decreases skipped bounded show ?thesis by blast
qed

theorem generate_suffix_terminates_witness:
  "(1::int) \<le> 703 \<and> suffix_while 703 = Some (0, ''aaa'') \<and> (703 - 1) div 26 < (703::int)
   \<and> (- 3::int) \<le> 0 \<and> suffix_while (- 3) = Some (- 3, []) \<and> generate_suffix (- 3) 2 = []"
proof -
  have a: "generate_suffix 703 2 = ''aaa''"
    by (simp add: generate_suffix_def letters_loop.simps ascii_lowercase_def)
  have "suffix_while 703 = Some (0, ''aaa'')"
    using generate_suffix_terminates [of 703 "[]"] by (simp add: a)
  moreover have "suffix_while (- 3) = Some (- 3, []) \<and> generate_suffix (- 3) 2 = []"
    using generate_suffix_terminates [of "- 3" "[]"] by simp
  ultimately show ?thesis by simp
qed

section \<open>The file lister\<close>

lemma of_char_less_256: "(of_char c :: nat) < 256"
  by (rule of_char_mod_256 [where ?'a = nat, THEN subst]) simp

lemma lower_char_idem: "lower_char (lower_char c) = lower_char c"
proof -
  have b: "(of_char c :: nat) < 256" by (rule of_char_less_256)
  show ?thesis
    using b by (auto simp: lower_char_def Let_def)
qed

lemma py_lower_idem: "py_lower (py_lower s) = py_lower s"
  by (simp add: py_lower_def lower_char_idem)

lemma isfile_filter_eq:
  "isfile_filter pf dir names w =
     (filter (\<lambda>f. os_path_isfile pf (disk w) (os_path_join dir f)) names,
      w\<lparr>syscalls := syscalls w @ map (\<lambda>f. Isfile (os_path_join dir f)) names\<rparr>)"
  by (induction names arbitrary: w) (simp_all add: call_isfile_def)

lemma dot_normalized_code:
  "ext \<noteq> [] \<Longrightarrow> (if \<not> py_startswith ext ''.'' then ''.'' @ ext else ext) = dot_normalized ext"
  by (cases ext) (simp_all add: dot_normalized_def py_startswith_def)

lemma get_files_to_rename_listed:
  assumes "os_listdir pf (disk w) dir = Inr names" and "ext \<noteq> []"
  shows "fst (get_files_to_rename pf dir ext w) =
     Inr (Some (filter (\<lambda>f. os_path_isfile pf (disk w) (os_path_join dir f)
                              \<and> py_endswith (py_lower f) (dot_normalized ext)) names))"
  using assms dot_normalized_code [OF assms(2)]
  by (simp add: get_files_to_rename_def call_listdir_def isfile_filter_eq Let_def)

lemma collector_filter:
  "get_user_preferences pf w = (Inr (Some prefs), w1) \<Longrightarrow>
     \<exists>line. extension_filter prefs = py_lower (py_strip line)"
  unfolding get_user_preferences_def Let_def
  by (auto split: prod.splits sum.splits if_splits option.splits)

lemmas demo_simps =
  demo_platform_def demo_world_def demo_path_def demo_rename_def parse_decimal_def
  decimal_value_def digit_value_def

lemma eq_char_of_iff: "(c = char_of (n::nat)) = (take_bit 8 n = of_char c)"
  using char_of_eq_iff [of n c] by auto

lemmas text_simps =
  py_startswith_def py_endswith_def py_lower_def lower_char_def char_of_eq_iff
  eq_char_of_iff py_strip_def py_isspace_def

lemmas io_simps =
  py_input_def py_print_def call_getcwd_def call_listdir_def call_isfile_def
  call_exists_def call_rename_def

text \<open>
  Claim C5, as amended. Given a listing and a non-empty filter, the file lister returns,
  in the order listed, exactly the regular files whose lower-cased name ends with the
  filter with its leading dot put in front where it is missing. The lister compares with
  the filter as it is handed over and does not lower-case it; for a filter that is
  already lower-case this is the dot-normalized, lower-cased filter, and every filter the
  preference collector delivers is lower-case.
\<close>

theorem lister_returns_matching_files:
  "(os_listdir pf (disk w) dir = Inr names \<and> ext \<noteq> [] \<longrightarrow>
      fst (get_files_to_rename pf dir ext w) =
        Inr (Some (filter (\<lambda>f. os_path_isfile pf (disk w) (os_path_join dir f)
                                 \<and> py_endswith (py_lower f) (dot_normalized ext)) names)))
   \<and> (os_listdir pf (disk w) dir = Inr names \<and> ext \<noteq> [] \<and> py_lower ext = ext \<longrightarrow>
      fst (get_files_to_rename pf dir ext w) =
        Inr (Some (filter (\<lambda>f. os_path_isfile pf (disk w) (os_path_join dir f)
                                 \<and> py_endswith (py_lower f) (dot_normalized (py_lower ext)))
                     names)))
   \<and> (get_user_preferences pf w0 = (Inr (Some prefs), w1) \<longrightarrow>
        py_lower (extension_filter prefs) = extension_filter prefs)"
proof -
  have listed: "fst (get_files_to_rename pf dir ext w) =
        Inr (Some (filter (\<lambda>f. os_path_isfile pf (disk w) (os_path_join dir f)
                                 \<and> py_endswith (py_lower f) (dot_normalized ext)) names))"
    if "os_listdir pf (disk w) dir = Inr names \<and> ext \<noteq> []"
    using that get_files_to_rename_listed [of pf w dir names ext] by blast
  have lowered: "fst (get_files_to_rename pf dir ext w) =
        Inr (Some (filter (\<lambda>f. os_path_isfile pf (disk w) (os_path_join dir f)
                                 \<and> py_endswith (py_lower f) (dot_normalized (py_lower ext)))
                     names))"
    if "os_listdir pf (disk w) dir = Inr names \<and> ext \<noteq> [] \<and> py_lower ext = ext"
    using that get_files_to_rename_listed [of pf w dir names ext] by simp
  have delivered: "py_lower (extension_filter prefs) = extension_filter prefs"
    if "get_user_preferences pf w0 = (Inr (Some prefs), w1)"
    using collector_filter [OF that] py_lower_idem by auto
  from listed lowered delivered show ?thesis by blast
qed

theorem lister_returns_matching_files_witness:
  "os_listdir demo_platform
     (disk (demo_world [] [(''a.txt'', RegularFile), (''b.txt'', RegularFile),
                           (''c.jpg'', RegularFile), (''old.txt'', Directory)])) ''/data''
     = Inr [''a.txt'', ''b.txt'', ''c.jpg'', ''old.txt'']
   \<and> ''.txt'' \<noteq> [] \<and> py_lower ''.txt'' = ''.txt''
   \<and> fst (get_files_to_rename demo_platform ''/data'' ''.txt''
             (demo_world [] [(''a.txt'', RegularFile), (''b.txt'', RegularFile),
                             (''c.jpg'', RegularFile), (''old.txt'', Directory)]))
       = Inr (Some [''a.txt'', ''b.txt''])
   \<and> fst (get_user_preferences demo_platform
             (demo_world [''/data'', ''photo'', ''1'', ''1'', '' .TXT''] []))
       = Inr (Some \<lparr>directory = ''/data'', common_name = ''photo'', numbering_style = 1,
                    start_index = 1, extension_filter = ''.txt''\<rparr>)
   \<and> py_lower (extension_filter
        \<lparr>directory = ''/data'', common_name = ''photo'', numbering_style = 1,
         start_index = 1, extension_filter = ''.txt''\<rparr>) = ''.txt''"
proof -
  let ?W = "demo_world [] [(''a.txt'', RegularFile), (''b.txt'', RegularFile),
                           (''c.jpg'', RegularFile), (''old.txt'', Directory)]"
  let ?C = "demo_world [''/data'', ''photo'', ''1'', ''1'', '' .TXT''] []"
  let ?P = "\<lparr>directory = ''/data'', common_name = ''photo'', numbering_style = 1,
             start_index = 1, extension_filter = ''.txt''\<rparr>"
  have listing: "os_listdir demo_platform (disk ?W) ''/data''
      = Inr [''a.txt'', ''b.txt'', ''c.jpg'', ''old.txt'']"
    by (simp add: demo_simps)
  have lower: "py_lower ''.txt'' = ''.txt''"
    by (simp add: text_simps)
  have collected: "fst (get_user_preferences demo_platform ?C) = Inr (Some ?P)"
    by (simp add: get_user_preferences_def choice_loop.simps start_index_loop.simps
          io_simps demo_simps text_simps)
  then have run: "get_user_preferences demo_platform ?C
      = (Inr (Some ?P), snd (get_user_preferences demo_platform ?C))"
    by (simp add: prod_eq_iff)
  note inst = lister_returns_matching_files
    [of demo_platform ?W "''/data''" "[''a.txt'', ''b.txt'', ''c.jpg'', ''old.txt'']"
        "''.txt''" ?C ?P "snd (get_user_preferences demo_platform ?C)"]
  have "fst (get_files_to_rename demo_platform ''/data'' ''.txt'' ?W) =
      Inr (Some (filter (\<lambda>f. os_path_isfile demo_platform (disk ?W) (os_path_join ''/data'' f)
                              \<and> py_endswith (py_lower f) (dot_normalized (py_lower ''.txt'')))
                   [''a.txt'', ''b.txt'', ''c.jpg'', ''old.txt'']))"
    using inst listing lower by blast
  then have found: "fst (get_files_to_rename demo_platform ''/data'' ''.txt'' ?W)
      = Inr (Some [''a.txt'', ''b.txt''])"
    by (simp add: demo_simps text_simps os_path_join_def dot_normalized_def)
  have "py_lower (extension_filter ?P) = extension_filter ?P"
    using inst run by blast
  then have delivered: "py_lower (extension_filter ?P) = ''.txt''" by simp
  from listing lower collected found delivered show ?thesis by simp
qed

text \<open>
  The claim as stated fails for a filter that is not lower-case: handed \<open>.TXT\<close>, the
  lister returns nothing, though \<open>a.txt\<close> is a regular file whose lower-cased name ends
  with the dot-normalized, lower-cased filter.
\<close>

theorem lister_uppercase_filter_counterexample:
  "fst (get_files_to_rename demo_platform ''/data'' ''.TXT''
          (demo_world [] [(''a.txt'', RegularFile)])) = Inr (Some [])
   \<and> os_listdir demo_platform (disk (demo_world [] [(''a.txt'', RegularFile)])) ''/data''
       = Inr [''a.txt'']
   \<and> os_path_isfile demo_platform (disk (demo_world [] [(''a.txt'', RegularFile)]))
        (os_path_join ''/data'' ''a.txt'')
   \<and> py_endswith (py_lower ''a.txt'') (dot_normalized (py_lower ''.TXT''))"
  by (simp add: get_files_to_rename_def io_simps demo_simps text_simps os_path_join_def
        dot_normalized_def)

section \<open>The renamer and the preview\<close>

lemma length_py_enumerate: "length (py_enumerate start xs) = length xs"
  by (induction xs arbitrary: start) simp_all

lemma py_enumerate_nth:
  "p < length xs \<Longrightarrow> py_enumerate start xs ! p = (start + int p, xs ! p)"
proof (induction xs arbitrary: start p)
  case Nil
  then show ?case by simp
next
  case (Cons x xs)
  show ?case
  proof (cases p)
    case 0
    then show ?thesis by simp
  next
    case (Suc q)
    with Cons.prems have "q < length xs" by simp
    from Cons.IH [OF this, of "start + 1"] Suc show ?thesis by simp
  qed
qed

lemma py_enumerate_map:
  "py_enumerate start xs = map (\<lambda>p. (start + int p, xs ! p)) [0..<length xs]"
  by (rule nth_equalityI) (simp_all add: length_py_enumerate py_enumerate_nth)

lemma exists_calls_append: "exists_calls (cs @ ds) = exists_calls cs @ exists_calls ds"
  by (induction cs rule: exists_calls.induct) simp_all

lemma rename_calls_append: "rename_calls (cs @ ds) = rename_calls cs @ rename_calls ds"
  by (induction cs rule: rename_calls.induct) simp_all

lemma successful_renames_append:
  "successful_renames (cs @ ds) = successful_renames cs + successful_renames ds"
  by (induction cs rule: successful_renames.induct) simp_all

text \<open>The loop over a list in two parts is the loop over the first, then over the second.\<close>

lemma rename_loop_append:
  "rename_loop pf dir name style (xs @ ys) c w =
     (case rename_loop pf dir name style xs c w of
        (Inl e, w1) \<Rightarrow> (Inl e, w1)
      | (Inr c1, w1) \<Rightarrow> rename_loop pf dir name style ys c1 w1)"
proof (induction xs arbitrary: c w)
  case Nil
  then show ?case by simp
next
  case (Cons x xs)
  obtain i filename where x: "x = (i, filename)" by (cases x)
  show ?case
    unfolding x by (simp add: Cons.IH Let_def split: prod.splits bool.splits sum.splits)
qed

lemma rename_loop_at:
  assumes "p < length xs"
    and "rename_loop pf dir name style (take p xs) c0 w0 = (Inr c1, w1)"
  shows "rename_loop pf dir name style xs c0 w0 =
     rename_loop pf dir name style (xs ! p # drop (Suc p) xs) c1 w1"
proof -
  have "xs = take p xs @ (xs ! p # drop (Suc p) xs)"
    using assms(1) by (simp add: id_take_nth_drop)
  then have "rename_loop pf dir name style xs c0 w0 =
      rename_loop pf dir name style (take p xs @ (xs ! p # drop (Suc p) xs)) c0 w0"
    by simp
  also have "\<dots> = rename_loop pf dir name style (xs ! p # drop (Suc p) xs) c1 w1"
    by (simp only: rename_loop_append assms(2) prod.case sum.case)
  finally show ?thesis .
qed

lemma rename_loop_count_le:
  "rename_loop pf dir name style xs c w = (Inr n, w') \<Longrightarrow> n \<le> c + length xs"
proof (induction xs arbitrary: c w)
  case Nil
  then show ?case by simp
next
  case (Cons x xs)
  obtain i filename where x: "x = (i, filename)" by (cases x)
  from Cons.prems show ?case
    unfolding x
    by (auto simp: Let_def split: prod.splits bool.splits sum.splits if_splits
          dest!: Cons.IH)
qed

lemma rename_loop_count:
  "rename_loop pf dir name style xs c w = (Inr n, w') \<Longrightarrow>
     successful_renames (syscalls w') + c = successful_renames (syscalls w) + n"
proof (induction xs arbitrary: c w)
  case Nil
  then show ?case by simp
next
  case (Cons x xs)
  obtain i filename where x: "x = (i, filename)" by (cases x)
  from Cons.prems show ?case
    unfolding x
    by (auto simp: Let_def io_simps successful_renames_append
          split: prod.splits bool.splits sum.splits if_splits dest!: Cons.IH)
qed

lemma rename_loop_completes:
  assumes "\<And>d src dst e. os_rename pf d src dst = Inl e \<Longrightarrow> is_OSError e"
  shows "\<exists>n w'. rename_loop pf dir name style xs c w = (Inr n, w')"
proof (induction xs arbitrary: c w)
  case Nil
  then show ?case by simp
next
  case (Cons x xs)
  obtain i filename where x: "x = (i, filename)" by (cases x)
  show ?case
    unfolding x
    by (auto simp: Let_def io_simps Cons.IH dest: assms
          split: prod.splits bool.splits sum.splits)
qed

text \<open>
  One round of the loop: it asks whether the new path exists, requests at most the one
  rename from the old path to the new, and either goes on with the rest or ends with an
  exception.
\<close>

lemma rename_loop_round:
  assumes "rename_loop pf dir name style ((i, filename) # rest) c w = (r, w')"
  shows "\<exists>c1 w1.
      exists_calls (syscalls w1) = exists_calls (syscalls w)
        @ [os_path_join dir (name @ ''_'' @ generate_suffix i style
                               @ snd (os_path_splitext filename))]
    \<and> set (rename_calls (syscalls w1)) \<subseteq> set (rename_calls (syscalls w))
        \<union> {(os_path_join dir filename,
             os_path_join dir (name @ ''_'' @ generate_suffix i style
                                @ snd (os_path_splitext filename)))}
    \<and> (rename_loop pf dir name style rest c1 w1 = (r, w') \<or> (\<exists>e. r = Inl e) \<and> w' = w1)"
proof -
  let ?new = "os_path_join dir (name @ ''_'' @ generate_suffix i style
                                 @ snd (os_path_splitext filename))"
  let ?old = "os_path_join dir filename"
  let ?w1 = "w\<lparr>syscalls := syscalls w @ [Exists ?new]\<rparr>"
  show ?thesis
  proof (cases "os_path_exists pf (disk w) ?new")
    case True
    then have "rename_loop pf dir name style rest c
        (py_print (''Warning: '' @ (name @ ''_'' @ generate_suffix i style
                     @ snd (os_path_splitext filename))
                   @ '' already exists! Skipping '' @ filename) ?w1) = (r, w')"
      using assms by (simp add: Let_def call_exists_def)
    then show ?thesis
      by (intro exI conjI disjI1)
         (auto simp: py_print_def exists_calls_append rename_calls_append)
  next
    case False
    show ?thesis
    proof (cases "os_rename pf (disk w) ?old ?new")
      case (Inr d)
      let ?w2 = "?w1\<lparr>disk := d, syscalls := syscalls ?w1 @ [Rename ?old ?new True]\<rparr>"
      have "rename_loop pf dir name style rest (c + 1)
          (py_print (''Renamed: '' @ filename @ '' -> '' @ (name @ ''_''
                       @ generate_suffix i style @ snd (os_path_splitext filename))) ?w2)
          = (r, w')"
        using assms False Inr by (simp add: Let_def call_exists_def call_rename_def)
      then show ?thesis
        by (intro exI conjI disjI1)
           (auto simp: py_print_def exists_calls_append rename_calls_append)
    next
      case (Inl e)
      let ?w2 = "?w1\<lparr>syscalls := syscalls ?w1 @ [Rename ?old ?new False]\<rparr>"
      show ?thesis
      proof (cases "is_OSError e")
        case True
        have "rename_loop pf dir name style rest c
            (py_print (''Error renaming '' @ filename @ '': '' @ exn_str e) ?w2) = (r, w')"
          using assms False Inl True by (simp add: Let_def call_exists_def call_rename_def)
        then show ?thesis
          by (intro exI conjI disjI1)
             (auto simp: py_print_def exists_calls_append rename_calls_append)
      next
        case nonos: False
        have "r = Inl e \<and> w' = ?w2"
          using assms False Inl nonos by (auto simp: Let_def call_exists_def call_rename_def)
        then show ?thesis
          by (intro exI [of _ c] exI [of _ ?w2] conjI disjI2)
             (auto simp: exists_calls_append rename_calls_append)
      qed
    qed
  qed
qed

lemma rename_loop_targets:
  assumes "rename_loop pf dir name style xs c w = (r, w')"
  shows "\<exists>n\<le>length xs.
      exists_calls (syscalls w') = exists_calls (syscalls w)
        @ map (\<lambda>(i, f). os_path_join dir (name @ ''_'' @ generate_suffix i style
                                             @ snd (os_path_splitext f))) (take n xs)
    \<and> set (rename_calls (syscalls w')) \<subseteq> set (rename_calls (syscalls w))
        \<union> (\<lambda>(i, f). (os_path_join dir f,
                       os_path_join dir (name @ ''_'' @ generate_suffix i style
                                          @ snd (os_path_splitext f)))) ` set (take n xs)
    \<and> ((\<exists>k. r = Inr k) \<longrightarrow> n = length xs)"
  using assms
proof (induction xs arbitrary: c w)
  case Nil
  then show ?case by auto
next
  case (Cons x xs)
  obtain i filename where x: "x = (i, filename)" by (cases x)
  let ?new = "\<lambda>(i, f). os_path_join dir (name @ ''_'' @ generate_suffix i style
                                          @ snd (os_path_splitext f))"
  let ?pair = "\<lambda>(i, f). (os_path_join dir f,
                       os_path_join dir (name @ ''_'' @ generate_suffix i style
                                          @ snd (os_path_splitext f)))"
  from rename_loop_round [OF Cons.prems [unfolded x]]
  obtain c1 w1 where
    e1: "exists_calls (syscalls w1) = exists_calls (syscalls w) @ [?new x]"
    and r1: "set (rename_calls (syscalls w1)) \<subseteq> set (rename_calls (syscalls w)) \<union> {?pair x}"
    and next1: "rename_loop pf dir name style xs c1 w1 = (r, w') \<or> (\<exists>e. r = Inl e) \<and> w' = w1"
    unfolding x by auto
  from next1 show ?case
  proof
    assume "rename_loop pf dir name style xs c1 w1 = (r, w')"
    from Cons.IH [OF this] obtain n where n: "n \<le> length xs"
      and e2: "exists_calls (syscalls w') = exists_calls (syscalls w1) @ map ?new (take n xs)"
      and r2: "set (rename_calls (syscalls w')) \<subseteq> set (rename_calls (syscalls w1))
                 \<union> ?pair ` set (take n xs)"
      and k2: "(\<exists>k. r = Inr k) \<longrightarrow> n = length xs"
      by auto
    have "Suc n \<le> length (x # xs)" using n by simp
    moreover have "exists_calls (syscalls w') =
        exists_calls (syscalls w) @ map ?new (take (Suc n) (x # xs))"
      using e1 e2 by simp
    moreover have "set (rename_calls (syscalls w')) \<subseteq> set (rename_calls (syscalls w))
        \<union> ?pair ` set (take (Suc n) (x # xs))"
      using r1 r2 by auto
    moreover have "(\<exists>k. r = Inr k) \<longrightarrow> Suc n = length (x # xs)"
      using k2 by simp
    ultimately show ?thesis by blast
  next
    assume stop: "(\<exists>e. r = Inl e) \<and> w' = w1"
    have "Suc 0 \<le> length (x # xs)" by simp
    moreover have "exists_calls (syscalls w') =
        exists_calls (syscalls w) @ map ?new (take (Suc 0) (x # xs))"
      using e1 stop by simp
    moreover have "set (rename_calls (syscalls w')) \<subseteq> set (rename_calls (syscalls w))
        \<union> ?pair ` set (take (Suc 0) (x # xs))"
      using r1 stop by auto
    moreover have "(\<exists>k. r = Inr k) \<longrightarrow> Suc 0 = length (x # xs)"
      using stop by auto
    ultimately show ?thesis by blast
  qed
qed

lemma preview_loop_stdout:
  "preview_loop name style xs w =
     w\<lparr>stdout := stdout w
          @ map (\<lambda>(i, f). f @ '' -> '' @ (name @ ''_'' @ generate_suffix i style
                                            @ snd (os_path_splitext f))) xs\<rparr>"
proof (induction xs arbitrary: w)
  case Nil
  then show ?case by simp
next
  case (Cons x xs)
  obtain i filename where x: "x = (i, filename)" by (cases x)
  show ?case unfolding x by (simp add: Cons.IH Let_def py_print_def)
qed

text \<open>
  What \<^const>\<open>os_path_splitext\<close> returns as the extension: the two parts make up the
  name again, and the extension is empty or begins with the last dot and has no other dot
  and no separator.
\<close>

lemma split_at_last:
  assumes "c \<in> set p"
  shows "\<exists>front. p = front @ c # rev (takeWhile (\<lambda>x. x \<noteq> c) (rev p))"
proof -
  let ?tw = "takeWhile (\<lambda>x. x \<noteq> c) (rev p)"
  let ?dw = "dropWhile (\<lambda>x. x \<noteq> c) (rev p)"
  have "?dw \<noteq> []" using assms by (simp add: dropWhile_eq_Nil_conv)
  then obtain y rest where dw: "?dw = y # rest" by (cases ?dw) auto
  have "y = c" using hd_dropWhile [of "\<lambda>x. x \<noteq> c" "rev p"] dw by auto
  have "rev p = ?tw @ c # rest"
    using dw \<open>y = c\<close> takeWhile_dropWhile_id [of "\<lambda>x. x \<noteq> c" "rev p"] by simp
  then have "rev (rev p) = rev (?tw @ c # rest)" by simp
  then have "p = rev rest @ c # rev ?tw" by simp
  then show ?thesis by blast
qed

lemma py_rfind_front:
  assumes "p = front @ c # rev (takeWhile (\<lambda>x. x \<noteq> c) (rev p))"
  shows "py_rfind p c = int (length front)"
proof -
  have "c \<in> set p" by (subst assms) simp
  moreover have "length p = length front + 1 + length (takeWhile (\<lambda>x. x \<noteq> c) (rev p))"
    by (subst assms) simp
  ultimately show ?thesis by (simp add: py_rfind_def)
qed

lemma py_rfind_drop:
  assumes "c \<in> set p"
  shows "drop (nat (py_rfind p c)) p = c # rev (takeWhile (\<lambda>x. x \<noteq> c) (rev p))"
proof -
  from split_at_last [OF assms] obtain front
    where p: "p = front @ c # rev (takeWhile (\<lambda>x. x \<noteq> c) (rev p))" by blast
  have "drop (length front) p = drop (length front)
      (front @ c # rev (takeWhile (\<lambda>x. x \<noteq> c) (rev p)))"
    using p by simp
  then show ?thesis by (simp add: py_rfind_front [OF p])
qed

lemma py_rfind_bounds: "- 1 \<le> py_rfind p c \<and> py_rfind p c < int (length p)"
proof (cases "c \<in> set p")
  case True
  from split_at_last [OF True] obtain front
    where p: "p = front @ c # rev (takeWhile (\<lambda>x. x \<noteq> c) (rev p))" by blast
  have "length front < length p" by (subst p) simp
  then show ?thesis by (simp add: py_rfind_front [OF p])
next
  case False
  then show ?thesis by (simp add: py_rfind_def)
qed

lemma py_rfind_nonneg:
  assumes "c \<in> set p"
  shows "0 \<le> py_rfind p c"
proof -
  from split_at_last [OF assms] obtain front
    where p: "p = front @ c # rev (takeWhile (\<lambda>x. x \<noteq> c) (rev p))" by blast
  show ?thesis by (simp add: py_rfind_front [OF p])
qed

lemma py_rfind_found: "py_rfind p c \<noteq> - 1 \<Longrightarrow> c \<in> set p"
  by (simp add: py_rfind_def split: if_splits)

lemma splitext_concat: "fst (os_path_splitext p) @ snd (os_path_splitext p) = p"
  by (simp add: os_path_splitext_def Let_def)

lemma splitext_extension:
  "snd (os_path_splitext p) = []
   \<or> (hd (snd (os_path_splitext p)) = CHR ''.''
      \<and> CHR ''.'' \<notin> set (tl (snd (os_path_splitext p)))
      \<and> CHR ''/'' \<notin> set (snd (os_path_splitext p)))"
proof (cases "snd (os_path_splitext p) = []")
  case True
  then show ?thesis by simp
next
  case False
  let ?sep = "py_rfind p CHR ''/''"
  let ?dot = "py_rfind p CHR ''.''"
  from False have gt: "?dot > ?sep" and ext: "snd (os_path_splitext p) = drop (nat ?dot) p"
    by (auto simp: os_path_splitext_def Let_def split: if_splits)
  have "?dot \<noteq> - 1" using gt py_rfind_bounds [of p "CHR ''/''"] by simp
  then have dot_in: "CHR ''.'' \<in> set p" by (rule py_rfind_found)
  have shape: "drop (nat ?dot) p = CHR ''.'' # rev (takeWhile (\<lambda>x. x \<noteq> CHR ''.'') (rev p))"
    by (rule py_rfind_drop [OF dot_in])
  have no_dot: "CHR ''.'' \<notin> set (rev (takeWhile (\<lambda>x. x \<noteq> CHR ''.'') (rev p)))"
    by (auto dest: set_takeWhileD)
  have no_sep: "CHR ''/'' \<notin> set (drop (nat ?dot) p)"
  proof (cases "CHR ''/'' \<in> set p")
    case True
    have after: "drop (nat ?sep) p = CHR ''/'' # rev (takeWhile (\<lambda>x. x \<noteq> CHR ''/'') (rev p))"
      by (rule py_rfind_drop [OF True])
    have "0 \<le> ?sep" by (rule py_rfind_nonneg [OF True])
    then have "nat ?dot = Suc (nat ?sep) + (nat ?dot - Suc (nat ?sep))" using gt by simp
    then have "drop (nat ?dot) p = drop (nat ?dot - Suc (nat ?sep)) (drop (Suc (nat ?sep)) p)"
      by (metis add.commute drop_drop)
    moreover have "drop (Suc (nat ?sep)) p = rev (takeWhile (\<lambda>x. x \<noteq> CHR ''/'') (rev p))"
      using after by (metis drop_Suc list.sel(3) tl_drop)
    ultimately have "set (drop (nat ?dot) p) \<subseteq> set (takeWhile (\<lambda>x. x \<noteq> CHR ''/'') (rev p))"
      using set_drop_subset [of "nat ?dot - Suc (nat ?sep)"
          "rev (takeWhile (\<lambda>x. x \<noteq> CHR ''/'') (rev p))"] by simp
    then show ?thesis by (auto dest: set_takeWhileD)
  next
    case False
    then show ?thesis by (auto dest: in_set_dropD)
  qed
  from shape no_dot no_sep show ?thesis unfolding ext by simp
qed

lemma enumerate_take_map:
  assumes "n \<le> length files"
  shows "map (\<lambda>(i, f). g i f) (take n (py_enumerate start files)) =
     map (\<lambda>p. g (start + int p) (files ! p)) [0..<n]"
proof -
  have "take n (py_enumerate start files) = map (\<lambda>p. (start + int p, files ! p)) [0..<n]"
    using assms by (simp add: py_enumerate_map take_map min_def)
  then show ?thesis by (simp add: comp_def)
qed

lemma enumerate_take_image:
  assumes "n \<le> length files"
  shows "(\<lambda>(i, f). g i f) ` set (take n (py_enumerate start files)) =
     (\<lambda>p. g (start + int p) (files ! p)) ` {..<n}"
proof -
  have "set (map (\<lambda>(i, f). g i f) (take n (py_enumerate start files))) =
      set (map (\<lambda>p. g (start + int p) (files ! p)) [0..<n])"
    by (simp only: enumerate_take_map [OF assms])
  then show ?thesis by (simp add: atLeast0LessThan)
qed

lemma rename_files_targets:
  assumes "rename_files pf dir files name style start w = (r, w')"
  shows "\<exists>n\<le>length files.
      exists_calls (syscalls w') = exists_calls (syscalls w)
        @ map (\<lambda>p. os_path_join dir (planned_name name style start p (files ! p))) [0..<n]
    \<and> set (rename_calls (syscalls w')) \<subseteq> set (rename_calls (syscalls w))
        \<union> (\<lambda>p. (os_path_join dir (files ! p),
                  os_path_join dir (planned_name name style start p (files ! p)))) ` {..<n}
    \<and> ((\<exists>k. r = Inr k) \<longrightarrow> n = length files)"
proof -
  let ?w0 = "py_print (CHR 0x0A # ''Renaming '' @ py_str (int (length files)) @ '' files...'') w"
  have run: "rename_loop pf dir name style (py_enumerate start files) 0 ?w0 = (r, w')"
    using assms by (simp add: rename_files_def)
  from rename_loop_targets [OF run] obtain n where n: "n \<le> length files"
    and e: "exists_calls (syscalls w') = exists_calls (syscalls ?w0)
        @ map (\<lambda>(i, f). os_path_join dir (name @ ''_'' @ generate_suffix i style
                                             @ snd (os_path_splitext f)))
            (take n (py_enumerate start files))"
    and r: "set (rename_calls (syscalls w')) \<subseteq> set (rename_calls (syscalls ?w0))
        \<union> (\<lambda>(i, f). (os_path_join dir f,
                       os_path_join dir (name @ ''_'' @ generate_suffix i style
                                          @ snd (os_path_splitext f))))
            ` set (take n (py_enumerate start files))"
    and k: "(\<exists>k. r = Inr k) \<longrightarrow> n = length files"
    by (auto simp: length_py_enumerate)
  have e': "exists_calls (syscalls w') = exists_calls (syscalls w)
        @ map (\<lambda>p. os_path_join dir (planned_name name style start p (files ! p))) [0..<n]"
    using e by (simp add: enumerate_take_map [OF n] planned_name_def py_print_def)
  have r': "set (rename_calls (syscalls w')) \<subseteq> set (rename_calls (syscalls w))
        \<union> (\<lambda>p. (os_path_join dir (files ! p),
                  os_path_join dir (planned_name name style start p (files ! p)))) ` {..<n}"
    using r by (simp add: enumerate_take_image [OF n] planned_name_def py_print_def)
  from n e' r' k show ?thesis by blast
qed

lemma preview_changes_stdout:
  "stdout (snd (preview_changes dir files name style start w)) =
     stdout w
     @ [CHR 0x0A # ''=== PREVIEW OF CHANGES ==='', ''Old names -> New names'',
        replicate 40 CHR ''-'']
     @ map (\<lambda>p. files ! p @ '' -> '' @ planned_name name style start p (files ! p))
         [0..<min 5 (length files)]
     @ (if length files > 5
        then [''... and '' @ py_str (int (length files) - 5) @ '' more files''] else [])
     @ [CHR 0x0A # ''Proceed with renaming? (y/n): '']"
proof -
  have n: "min 5 (length files) \<le> length (take 5 files)" by simp
  have "map (\<lambda>(i, f). f @ '' -> '' @ (name @ ''_'' @ generate_suffix i style
                                          @ snd (os_path_splitext f)))
          (py_enumerate start (take 5 files)) =
        map (\<lambda>p. take 5 files ! p @ '' -> ''
                   @ planned_name name style start p (take 5 files ! p))
          [0..<min 5 (length files)]"
    using enumerate_take_map [OF n, of "\<lambda>i f. f @ '' -> '' @ (name @ ''_''
              @ generate_suffix i style @ snd (os_path_splitext f))" start]
    by (simp add: length_py_enumerate planned_name_def min_def)
  also have "\<dots> = map (\<lambda>p. files ! p @ '' -> '' @ planned_name name style start p (files ! p))
          [0..<min 5 (length files)]"
    by (rule map_cong) simp_all
  finally show ?thesis
    by (simp add: preview_changes_def Let_def preview_loop_stdout py_print_def py_input_def
          split: list.splits)
qed

text \<open>
  Claim C2. The file at position \<open>p\<close> (from 0) gets the new name
  base name, underscore, suffix of \<open>start + p\<close>, original extension. The renamer asks,
  file after file and in order, whether the path of exactly this name exists, and every
  rename it requests goes from the path of the file at some position to the path of that
  name; it reaches all files unless an exception ends it. The preview prints the same
  name for each of the first five files. The extension is the part
  \<^verbatim>\<open>os.path.splitext\<close> splits off: the rest of the name from its last dot on, or
  nothing. For the base name photo, the numeric style, start 1 and the files x.png,
  y.png the names are photo_1.png and photo_2.png.
\<close>

theorem new_filename_formula:
  "(rename_files pf dir files name style start w = (r, w') \<longrightarrow>
      (\<exists>n\<le>length files.
          exists_calls (syscalls w') = exists_calls (syscalls w)
            @ map (\<lambda>p. os_path_join dir (planned_name name style start p (files ! p))) [0..<n]
        \<and> set (rename_calls (syscalls w')) \<subseteq> set (rename_calls (syscalls w))
            \<union> (\<lambda>p. (os_path_join dir (files ! p),
                      os_path_join dir (planned_name name style start p (files ! p)))) ` {..<n}
        \<and> ((\<exists>k. r = Inr k) \<longrightarrow> n = length files)))
   \<and> stdout (snd (preview_changes dir files name style start w)) =
       stdout w
       @ [CHR 0x0A # ''=== PREVIEW OF CHANGES ==='', ''Old names -> New names'',
          replicate 40 CHR ''-'']
       @ map (\<lambda>p. files ! p @ '' -> '' @ planned_name name style start p (files ! p))
           [0..<min 5 (length files)]
       @ (if length files > 5
          then [''... and '' @ py_str (int (length files) - 5) @ '' more files''] else [])
       @ [CHR 0x0A # ''Proceed with renaming? (y/n): '']
   \<and> fst (os_path_splitext filename) @ snd (os_path_splitext filename) = filename
   \<and> (snd (os_path_splitext filename) = []
      \<or> (hd (snd (os_path_splitext filename)) = CHR ''.''
         \<and> CHR ''.'' \<notin> set (tl (snd (os_path_splitext filename)))
         \<and> CHR ''/'' \<notin> set (snd (os_path_splitext filename))))
   \<and> map (\<lambda>p. planned_name ''photo'' 1 1 p ([''x.png'', ''y.png''] ! p)) [0..<2]
       = [''photo_1.png'', ''photo_2.png'']"
proof -
  have example: "map (\<lambda>p. planned_name ''photo'' 1 1 p ([''x.png'', ''y.png''] ! p)) [0..<2]
       = [''photo_1.png'', ''photo_2.png'']"
    by (simp add: upt_rec planned_name_def generate_suffix_def py_str_def digits_of.simps
          digit_char_def os_path_splitext_def py_rfind_def has_stem.simps)
  from rename_files_targets [of pf dir files name style start w r w']
    preview_changes_stdout [of dir files name style start w]
    splitext_concat [of filename] splitext_extension [of filename] example
  show ?thesis by (intro conjI impI)
qed

lemmas suffix_simps =
  generate_suffix_def py_str_def digits_of.simps digit_char_def letters_loop.simps
  ascii_lowercase_def

lemmas path_simps =
  os_path_join_def os_path_splitext_def py_rfind_def has_stem.simps

theorem new_filename_formula_witness:
  "rename_files demo_platform ''/data'' [''x.png'', ''y.png''] ''photo'' 1 1
       (demo_world [] [(''x.png'', RegularFile), (''y.png'', RegularFile)])
     = (Inr 2,
        \<lparr>stdin = [],
         stdout = [CHR 0x0A # ''Renaming 2 files...'', ''Renamed: x.png -> photo_1.png'',
                   ''Renamed: y.png -> photo_2.png''],
         disk = [(''photo_1.png'', RegularFile), (''photo_2.png'', RegularFile)],
         syscalls = [Exists ''/data/photo_1.png'',
                     Rename ''/data/x.png'' ''/data/photo_1.png'' True,
                     Exists ''/data/photo_2.png'',
                     Rename ''/data/y.png'' ''/data/photo_2.png'' True]\<rparr>)
   \<and> map (\<lambda>p. os_path_join ''/data''
                (planned_name ''photo'' 1 1 p ([''x.png'', ''y.png''] ! p))) [0..<2]
       = [''/data/photo_1.png'', ''/data/photo_2.png'']"
proof -
  let ?W = "demo_world [] [(''x.png'', RegularFile), (''y.png'', RegularFile)]"
  let ?V = "\<lparr>stdin = [],
         stdout = [CHR 0x0A # ''Renaming 2 files...'', ''Renamed: x.png -> photo_1.png'',
                   ''Renamed: y.png -> photo_2.png''],
         disk = [(''photo_1.png'', RegularFile), (''photo_2.png'', RegularFile)],
         syscalls = [Exists ''/data/photo_1.png'',
                     Rename ''/data/x.png'' ''/data/photo_1.png'' True,
                     Exists ''/data/photo_2.png'',
                     Rename ''/data/y.png'' ''/data/photo_2.png'' True]\<rparr>"
  have run: "rename_files demo_platform ''/data'' [''x.png'', ''y.png''] ''photo'' 1 1 ?W
      = (Inr 2, ?V)"
    by (simp add: rename_files_def Let_def io_simps demo_simps suffix_simps path_simps
          text_simps)
  from new_filename_formula
    [of demo_platform "''/data''" "[''x.png'', ''y.png'']" "''photo''" 1 1 ?W "Inr 2" ?V] run
  obtain n where "n \<le> length [''x.png'', ''y.png'']"
    and calls: "exists_calls (syscalls ?V) = exists_calls (syscalls ?W)
        @ map (\<lambda>p. os_path_join ''/data''
                     (planned_name ''photo'' 1 1 p ([''x.png'', ''y.png''] ! p))) [0..<n]"
    and all: "(\<exists>k. (Inr 2 :: py_exn + nat) = Inr k) \<longrightarrow> n = length [''x.png'', ''y.png'']"
    by blast
  from all have "n = 2" by simp
  with calls have "map (\<lambda>p. os_path_join ''/data''
                (planned_name ''photo'' 1 1 p ([''x.png'', ''y.png''] ! p))) [0..<2]
       = [''/data/photo_1.png'', ''/data/photo_2.png'']"
    by (simp add: demo_world_def)
  with run show ?thesis by blast
qed

text \<open>
  Claim C3, as amended. When the loop of the renamer reaches the file at position
  \<open>p\<close>, having counted \<open>c1\<close> renames and being in the world \<open>w1\<close>, and
  \<^verbatim>\<open>os.path.exists\<close> answers true for the path of the file's new name there, the
  renamer makes no rename call for this file: it prints the warning and goes on with
  the files after it, with the count and the disk as they were. The count the renamer
  returns is then smaller than the number of files.
\<close>

theorem collision_skips_file:
  assumes "p < length files"
    and "rename_loop pf dir name style (take p (py_enumerate start files)) 0
           (py_print (CHR 0x0A # ''Renaming '' @ py_str (int (length files)) @ '' files...'') w)
         = (Inr c1, w1)"
    and "os_path_exists pf (disk w1)
           (os_path_join dir (planned_name name style start p (files ! p)))"
  shows "rename_files pf dir files name style start w =
           rename_loop pf dir name style (drop (Suc p) (py_enumerate start files)) c1
             (w1\<lparr>syscalls := syscalls w1
                    @ [Exists (os_path_join dir (planned_name name style start p (files ! p)))],
                 stdout := stdout w1
                    @ [''Warning: '' @ planned_name name style start p (files ! p)
                       @ '' already exists! Skipping '' @ files ! p]\<rparr>)
       \<and> disk (w1\<lparr>syscalls := syscalls w1
                    @ [Exists (os_path_join dir (planned_name name style start p (files ! p)))],
                 stdout := stdout w1
                    @ [''Warning: '' @ planned_name name style start p (files ! p)
                       @ '' already exists! Skipping '' @ files ! p]\<rparr>) = disk w1
       \<and> (\<forall>n w'. rename_files pf dir files name style start w = (Inr n, w')
             \<longrightarrow> n < length files)"
proof -
  let ?xs = "py_enumerate start files"
  let ?w0 = "py_print (CHR 0x0A # ''Renaming '' @ py_str (int (length files)) @ '' files...'') w"
  let ?new = "planned_name name style start p (files ! p)"
  let ?w2 = "w1\<lparr>syscalls := syscalls w1 @ [Exists (os_path_join dir ?new)],
                 stdout := stdout w1
                    @ [''Warning: '' @ ?new @ '' already exists! Skipping '' @ files ! p]\<rparr>"
  have p: "p < length ?xs" using assms(1) by (simp add: length_py_enumerate)
  have at: "?xs ! p = (start + int p, files ! p)"
    using assms(1) by (rule py_enumerate_nth)
  have "rename_files pf dir files name style start w =
      rename_loop pf dir name style ((start + int p, files ! p) # drop (Suc p) ?xs) c1 w1"
    unfolding rename_files_def using rename_loop_at [OF p assms(2)] at by simp
  also have "\<dots> = rename_loop pf dir name style (drop (Suc p) ?xs) c1 ?w2"
    using assms(3) by (simp add: Let_def call_exists_def py_print_def planned_name_def)
  finally have skip: "rename_files pf dir files name style start w =
      rename_loop pf dir name style (drop (Suc p) ?xs) c1 ?w2" .
  have less: "n < length files"
    if "rename_files pf dir files name style start w = (Inr n, w')" for n w'
  proof -
    have "n \<le> c1 + length (drop (Suc p) ?xs)"
      using that skip rename_loop_count_le [of pf dir name style "drop (Suc p) ?xs" c1 ?w2 n w']
      by simp
    moreover have "c1 \<le> 0 + length (take p ?xs)"
      by (rule rename_loop_count_le [OF assms(2)])
    moreover have "length (drop (Suc p) ?xs) = length files - Suc p"
      by (simp add: length_py_enumerate)
    moreover have "length (take p ?xs) = p"
      using p by simp
    ultimately show ?thesis using assms(1) by linarith
  qed
  from skip less show ?thesis by simp
qed

theorem collision_skips_file_witness:
  "(0::nat) < length [''x.png'', ''y.png'']
   \<and> rename_loop demo_platform ''/data'' ''photo'' 1
         (take 0 (py_enumerate 1 [''x.png'', ''y.png''])) 0
         (py_print (CHR 0x0A # ''Renaming '' @ py_str (int (length [''x.png'', ''y.png'']))
                    @ '' files...'')
            (demo_world [] [(''x.png'', RegularFile), (''y.png'', RegularFile),
                            (''photo_1.png'', RegularFile)]))
       = (Inr 0,
          \<lparr>stdin = [], stdout = [CHR 0x0A # ''Renaming 2 files...''],
           disk = [(''x.png'', RegularFile), (''y.png'', RegularFile),
                   (''photo_1.png'', RegularFile)],
           syscalls = []\<rparr>)
   \<and> os_path_exists demo_platform
         [(''x.png'', RegularFile), (''y.png'', RegularFile), (''photo_1.png'', RegularFile)]
         (os_path_join ''/data'' (planned_name ''photo'' 1 1 0 ([''x.png'', ''y.png''] ! 0)))
   \<and> rename_files demo_platform ''/data'' [''x.png'', ''y.png''] ''photo'' 1 1
         (demo_world [] [(''x.png'', RegularFile), (''y.png'', RegularFile),
                         (''photo_1.png'', RegularFile)])
       = (Inr 1,
          \<lparr>stdin = [],
           stdout = [CHR 0x0A # ''Renaming 2 files...'',
                     ''Warning: photo_1.png already exists! Skipping x.png'',
                     ''Renamed: y.png -> photo_2.png''],
           disk = [(''x.png'', RegularFile), (''photo_2.png'', RegularFile),
                   (''photo_1.png'', RegularFile)],
           syscalls = [Exists ''/data/photo_1.png'', Exists ''/data/photo_2.png'',
                       Rename ''/data/y.png'' ''/data/photo_2.png'' True]\<rparr>)
   \<and> (1::nat) < length [''x.png'', ''y.png'']"
proof -
  let ?files = "[''x.png'', ''y.png'']"
  let ?D = "[(''x.png'', RegularFile), (''y.png'', RegularFile), (''photo_1.png'', RegularFile)]"
  let ?W = "demo_world [] ?D"
  let ?V = "\<lparr>stdin = [], stdout = [CHR 0x0A # ''Renaming 2 files...''],
           disk = ?D, syscalls = []\<rparr>"
  have h1: "(0::nat) < length ?files" by simp
  have h2: "rename_loop demo_platform ''/data'' ''photo'' 1 (take 0 (py_enumerate 1 ?files)) 0
         (py_print (CHR 0x0A # ''Renaming '' @ py_str (int (length ?files)) @ '' files...'') ?W)
       = (Inr 0, ?V)"
    by (simp add: io_simps demo_simps suffix_simps)
  have h3: "os_path_exists demo_platform (disk ?V)
         (os_path_join ''/data'' (planned_name ''photo'' 1 1 0 (?files ! 0)))"
    by (simp add: planned_name_def demo_simps suffix_simps path_simps text_simps)
  note inst = collision_skips_file [of 0 ?files demo_platform "''/data''" "''photo''" 1 1 ?W 0 ?V,
      OF h1 h2 h3]
  have run: "rename_files demo_platform ''/data'' ?files ''photo'' 1 1 ?W
       = (Inr 1,
          \<lparr>stdin = [],
           stdout = [CHR 0x0A # ''Renaming 2 files...'',
                     ''Warning: photo_1.png already exists! Skipping x.png'',
                     ''Renamed: y.png -> photo_2.png''],
           disk = [(''x.png'', RegularFile), (''photo_2.png'', RegularFile),
                   (''photo_1.png'', RegularFile)],
           syscalls = [Exists ''/data/photo_1.png'', Exists ''/data/photo_2.png'',
                       Rename ''/data/y.png'' ''/data/photo_2.png'' True]\<rparr>)"
    by (subst conjunct1 [OF inst])
       (simp add: Let_def planned_name_def io_simps demo_simps suffix_simps path_simps
          text_simps)
  have "(1::nat) < length ?files"
    using conjunct2 [OF conjunct2 [OF inst]] run by blast
  with h1 h2 h3 run show ?thesis by simp
qed

text \<open>
  The claim as stated fails where the new name is on the disk as an entry that
  \<^verbatim>\<open>os.path.exists\<close> does not report. With a symbolic link \<open>photo_1.png\<close> whose target
  is missing beside the file \<open>x.png\<close>, the directory lists the name, the file lister
  returns \<open>x.png\<close> alone, the renamer finds the path free, renames \<open>x.png\<close> over the
  link and counts it.
\<close>

theorem dangling_link_replaced_counterexample:
  "os_listdir link_platform [(''x.png'', PlainFile), (''photo_1.png'', DanglingLink)] ''/data''
     = Inr [''x.png'', ''photo_1.png'']
   \<and> fst (get_files_to_rename link_platform ''/data'' []
            \<lparr>stdin = [], stdout = [],
             disk = [(''x.png'', PlainFile), (''photo_1.png'', DanglingLink)],
             syscalls = []\<rparr>)
       = Inr (Some [''x.png''])
   \<and> planned_name ''photo'' 1 1 0 ''x.png'' = ''photo_1.png''
   \<and> \<not> os_path_exists link_platform
         [(''x.png'', PlainFile), (''photo_1.png'', DanglingLink)] ''/data/photo_1.png''
   \<and> rename_files link_platform ''/data'' [''x.png''] ''photo'' 1 1
         \<lparr>stdin = [], stdout = [],
          disk = [(''x.png'', PlainFile), (''photo_1.png'', DanglingLink)],
          syscalls = []\<rparr>
       = (Inr 1,
          \<lparr>stdin = [],
           stdout = [CHR 0x0A # ''Renaming 1 files...'', ''Renamed: x.png -> photo_1.png''],
           disk = [(''photo_1.png'', PlainFile)],
           syscalls = [Exists ''/data/photo_1.png'',
                       Rename ''/data/x.png'' ''/data/photo_1.png'' True]\<rparr>)"
proof -
  let ?D = "[(''x.png'', PlainFile), (''photo_1.png'', DanglingLink)]"
  let ?W = "\<lparr>stdin = [], stdout = [], disk = ?D, syscalls = []\<rparr>"
  have listed: "os_listdir link_platform ?D ''/data'' = Inr [''x.png'', ''photo_1.png'']"
    by (simp add: link_platform_def)
  have batch: "fst (get_files_to_rename link_platform ''/data'' [] ?W) = Inr (Some [''x.png''])"
    by (simp add: get_files_to_rename_def call_listdir_def isfile_filter_eq link_platform_def
          demo_path_def os_path_join_def text_simps py_print_def)
  have name: "planned_name ''photo'' 1 1 0 ''x.png'' = ''photo_1.png''"
    by (simp add: planned_name_def suffix_simps path_simps)
  have free: "\<not> os_path_exists link_platform ?D ''/data/photo_1.png''"
    by (simp add: link_platform_def demo_path_def)
  have run: "rename_files link_platform ''/data'' [''x.png''] ''photo'' 1 1 ?W
       = (Inr 1,
          \<lparr>stdin = [],
           stdout = [CHR 0x0A # ''Renaming 1 files...'', ''Renamed: x.png -> photo_1.png''],
           disk = [(''photo_1.png'', PlainFile)],
           syscalls = [Exists ''/data/photo_1.png'',
                       Rename ''/data/x.png'' ''/data/photo_1.png'' True]\<rparr>)"
    by (simp add: rename_files_def Let_def io_simps link_platform_def link_rename_def
          demo_path_def suffix_simps path_simps text_simps)
  from listed batch name free run show ?thesis by blast
qed

lemma rename_files_checks_all:
  assumes "rename_files pf dir files name style start w = (Inr n, w')"
  shows "length (exists_calls (syscalls w')) = length (exists_calls (syscalls w)) + length files"
proof -
  from rename_files_targets [OF assms] obtain k where
    "exists_calls (syscalls w') = exists_calls (syscalls w)
        @ map (\<lambda>p. os_path_join dir (planned_name name style start p (files ! p))) [0..<k]"
    and "k = length files"
    by blast
  then show ?thesis by simp
qed

lemma demo_rename_errors: "demo_rename d src dst = Inl e \<Longrightarrow> is_OSError e"
  by (auto simp: demo_rename_def split: option.splits prod.splits if_splits)

text \<open>
  Claim C6. When the loop of the renamer reaches the file at position \<open>p\<close>, the path
  of its new name does not exist and \<^verbatim>\<open>os.rename\<close> fails with an \<open>OSError\<close>, the
  renamer prints the error for this file and goes on with the files after it, with the
  count and the disk as they were. If \<^verbatim>\<open>os.rename\<close> fails with nothing but
  \<open>OSError\<close>s, the renamer returns a count whatever the files are. The count it
  returns is the number of renames that succeeded, and it has then looked at every
  file.
\<close>

theorem rename_failure_is_isolated:
  "(p < length files
    \<and> rename_loop pf dir name style (take p (py_enumerate start files)) 0
         (py_print (CHR 0x0A # ''Renaming '' @ py_str (int (length files)) @ '' files...'') w)
       = (Inr c1, w1)
    \<and> \<not> os_path_exists pf (disk w1)
           (os_path_join dir (planned_name name style start p (files ! p)))
    \<and> os_rename pf (disk w1) (os_path_join dir (files ! p))
          (os_path_join dir (planned_name name style start p (files ! p))) = Inl e
    \<and> is_OSError e
    \<longrightarrow> rename_files pf dir files name style start w =
          rename_loop pf dir name style (drop (Suc p) (py_enumerate start files)) c1
            (w1\<lparr>syscalls := syscalls w1
                   @ [Exists (os_path_join dir (planned_name name style start p (files ! p))),
                      Rename (os_path_join dir (files ! p))
                        (os_path_join dir (planned_name name style start p (files ! p))) False],
                stdout := stdout w1
                   @ [''Error renaming '' @ files ! p @ '': '' @ exn_str e]\<rparr>))
   \<and> ((\<forall>d src dst x. os_rename pf d src dst = Inl x \<longrightarrow> is_OSError x)
      \<longrightarrow> (\<exists>n w'. rename_files pf dir files name style start w = (Inr n, w')))
   \<and> (rename_files pf dir files name style start w = (Inr n, w')
      \<longrightarrow> successful_renames (syscalls w') = successful_renames (syscalls w) + n
        \<and> length (exists_calls (syscalls w'))
            = length (exists_calls (syscalls w)) + length files)"
proof -
  let ?xs = "py_enumerate start files"
  let ?w0 = "py_print (CHR 0x0A # ''Renaming '' @ py_str (int (length files)) @ '' files...'') w"
  let ?new = "planned_name name style start p (files ! p)"
  let ?w2 = "w1\<lparr>syscalls := syscalls w1
                   @ [Exists (os_path_join dir ?new),
                      Rename (os_path_join dir (files ! p)) (os_path_join dir ?new) False],
                stdout := stdout w1
                   @ [''Error renaming '' @ files ! p @ '': '' @ exn_str e]\<rparr>"
  have isolated: "rename_files pf dir files name style start w =
      rename_loop pf dir name style (drop (Suc p) ?xs) c1 ?w2"
    if p: "p < length files"
      and reach: "rename_loop pf dir name style (take p ?xs) 0 ?w0 = (Inr c1, w1)"
      and free: "\<not> os_path_exists pf (disk w1) (os_path_join dir ?new)"
      and fails: "os_rename pf (disk w1) (os_path_join dir (files ! p)) (os_path_join dir ?new)
                    = Inl e"
      and os: "is_OSError e"
  proof -
    have lt: "p < length ?xs" using p by (simp add: length_py_enumerate)
    have at: "?xs ! p = (start + int p, files ! p)"
      using p by (rule py_enumerate_nth)
    have "rename_files pf dir files name style start w =
        rename_loop pf dir name style ((start + int p, files ! p) # drop (Suc p) ?xs) c1 w1"
      unfolding rename_files_def using rename_loop_at [OF lt reach] at by simp
    also have "\<dots> = rename_loop pf dir name style (drop (Suc p) ?xs) c1 ?w2"
      using free fails os
      by (simp add: Let_def call_exists_def call_rename_def py_print_def planned_name_def)
    finally show ?thesis .
  qed
  have completes: "\<exists>n w'. rename_files pf dir files name style start w = (Inr n, w')"
    if "\<forall>d src dst x. os_rename pf d src dst = Inl x \<longrightarrow> is_OSError x"
    unfolding rename_files_def using that by (intro rename_loop_completes) blast
  have counted: "successful_renames (syscalls w') = successful_renames (syscalls w) + n
        \<and> length (exists_calls (syscalls w'))
            = length (exists_calls (syscalls w)) + length files"
    if run: "rename_files pf dir files name style start w = (Inr n, w')"
  proof -
    have "rename_loop pf dir name style ?xs 0 ?w0 = (Inr n, w')"
      using run by (simp add: rename_files_def)
    from rename_loop_count [OF this]
    have "successful_renames (syscalls w') = successful_renames (syscalls w) + n"
      by (simp add: py_print_def)
    with rename_files_checks_all [OF run] show ?thesis by simp
  qed
  from isolated completes counted show ?thesis by blast
qed

theorem rename_failure_is_isolated_witness:
  "(0::nat) < length [''a.txt'', ''b.txt'']
   \<and> rename_loop demo_platform ''/data'' ''photo'' 2
         (take 0 (py_enumerate 1 [''a.txt'', ''b.txt''])) 0
         (py_print (CHR 0x0A # ''Renaming '' @ py_str (int (length [''a.txt'', ''b.txt'']))
                    @ '' files...'')
            (demo_world [] [(''a.txt'', LockedFile), (''b.txt'', RegularFile)]))
       = (Inr 0,
          \<lparr>stdin = [], stdout = [CHR 0x0A # ''Renaming 2 files...''],
           disk = [(''a.txt'', LockedFile), (''b.txt'', RegularFile)], syscalls = []\<rparr>)
   \<and> \<not> os_path_exists demo_platform [(''a.txt'', LockedFile), (''b.txt'', RegularFile)]
         (os_path_join ''/data'' (planned_name ''photo'' 2 1 0 ([''a.txt'', ''b.txt''] ! 0)))
   \<and> os_rename demo_platform [(''a.txt'', LockedFile), (''b.txt'', RegularFile)]
         (os_path_join ''/data'' ([''a.txt'', ''b.txt''] ! 0))
         (os_path_join ''/data'' (planned_name ''photo'' 2 1 0 ([''a.txt'', ''b.txt''] ! 0)))
       = Inl (PermissionError ''/data/a.txt'')
   \<and> is_OSError (PermissionError ''/data/a.txt'')
   \<and> rename_files demo_platform ''/data'' [''a.txt'', ''b.txt''] ''photo'' 2 1
         (demo_world [] [(''a.txt'', LockedFile), (''b.txt'', RegularFile)])
       = (Inr 1,
          \<lparr>stdin = [],
           stdout = [CHR 0x0A # ''Renaming 2 files...'',
                     ''Error renaming a.txt: /data/a.txt'',
                     ''Renamed: b.txt -> photo_b.txt''],
           disk = [(''a.txt'', LockedFile), (''photo_b.txt'', RegularFile)],
           syscalls = [Exists ''/data/photo_a.txt'',
                       Rename ''/data/a.txt'' ''/data/photo_a.txt'' False,
                       Exists ''/data/photo_b.txt'',
                       Rename ''/data/b.txt'' ''/data/photo_b.txt'' True]\<rparr>)
   \<and> successful_renames
         [Exists ''/data/photo_a.txt'', Rename ''/data/a.txt'' ''/data/photo_a.txt'' False,
          Exists ''/data/photo_b.txt'', Rename ''/data/b.txt'' ''/data/photo_b.txt'' True]
       = 0 + 1"
proof -
  let ?files = "[''a.txt'', ''b.txt'']"
  let ?D = "[(''a.txt'', LockedFile), (''b.txt'', RegularFile)]"
  let ?W = "demo_world [] ?D"
  let ?V = "\<lparr>stdin = [], stdout = [CHR 0x0A # ''Renaming 2 files...''],
           disk = ?D, syscalls = []\<rparr>"
  let ?E = "PermissionError ''/data/a.txt''"
  let ?Z = "\<lparr>stdin = [],
           stdout = [CHR 0x0A # ''Renaming 2 files...'',
                     ''Error renaming a.txt: /data/a.txt'',
                     ''Renamed: b.txt -> photo_b.txt''],
           disk = [(''a.txt'', LockedFile), (''photo_b.txt'', RegularFile)],
           syscalls = [Exists ''/data/photo_a.txt'',
                       Rename ''/data/a.txt'' ''/data/photo_a.txt'' False,
                       Exists ''/data/photo_b.txt'',
                       Rename ''/data/b.txt'' ''/data/photo_b.txt'' True]\<rparr>"
  have h1: "(0::nat) < length ?files" by simp
  have h2: "rename_loop demo_platform ''/data'' ''photo'' 2 (take 0 (py_enumerate 1 ?files)) 0
         (py_print (CHR 0x0A # ''Renaming '' @ py_str (int (length ?files)) @ '' files...'') ?W)
       = (Inr 0, ?V)"
    by (simp add: io_simps demo_simps suffix_simps)
  have h3: "\<not> os_path_exists demo_platform (disk ?V)
         (os_path_join ''/data'' (planned_name ''photo'' 2 1 0 (?files ! 0)))"
    by (simp add: planned_name_def demo_simps suffix_simps path_simps text_simps)
  have h4: "os_rename demo_platform (disk ?V) (os_path_join ''/data'' (?files ! 0))
         (os_path_join ''/data'' (planned_name ''photo'' 2 1 0 (?files ! 0))) = Inl ?E"
    by (simp add: planned_name_def demo_simps suffix_simps path_simps text_simps)
  have h5: "is_OSError ?E" by simp
  have h6: "\<forall>d src dst x. os_rename demo_platform d src dst = Inl x \<longrightarrow> is_OSError x"
    by (simp add: demo_platform_def demo_rename_errors)
  note inst = rename_failure_is_isolated
    [of 0 ?files demo_platform "''/data''" "''photo''" 2 1 ?W 0 ?V ?E 1 ?Z]
  have "rename_files demo_platform ''/data'' ?files ''photo'' 2 1 ?W =
      rename_loop demo_platform ''/data'' ''photo'' 2 (drop (Suc 0) (py_enumerate 1 ?files)) 0
        (?V\<lparr>syscalls := syscalls ?V
               @ [Exists (os_path_join ''/data'' (planned_name ''photo'' 2 1 0 (?files ! 0))),
                  Rename (os_path_join ''/data'' (?files ! 0))
                    (os_path_join ''/data'' (planned_name ''photo'' 2 1 0 (?files ! 0))) False],
            stdout := stdout ?V @ [''Error renaming '' @ ?files ! 0 @ '': '' @ exn_str ?E]\<rparr>)"
    using inst h1 h2 h3 h4 h5 by blast
  then have run: "rename_files demo_platform ''/data'' ?files ''photo'' 2 1 ?W = (Inr 1, ?Z)"
    by (simp add: Let_def planned_name_def io_simps demo_simps suffix_simps path_simps
          text_simps)
  have "successful_renames (syscalls ?Z) = successful_renames (syscalls ?W) + 1"
    using inst run by blast
  then have count: "successful_renames (syscalls ?Z) = 0 + 1"
    by (simp add: demo_world_def)
  have "\<exists>n w'. rename_files demo_platform ''/data'' ?files ''photo'' 2 1 ?W = (Inr n, w')"
    using inst h6 by blast
  with h1 h2 h3 h4 h5 run count show ?thesis by simp
qed

section \<open>The pipeline\<close>

text \<open>What each stage before the renamer leaves untouched.\<close>

lemma choice_loop_frame:
  "choice_loop pf w = (r, w') \<Longrightarrow> disk w' = disk w \<and> syscalls w' = syscalls w"
proof (induction "stdin w" arbitrary: w)
  case Nil
  then show ?case
    by (subst (asm) choice_loop.simps) (auto simp: py_input_def)
next
  case (Cons line rest)
  from Cons.hyps(2) have line: "stdin w = line # rest" by simp
  let ?w1 = "w\<lparr>stdin := rest, stdout := stdout w @ [''Enter your choice (1 or 2): '']\<rparr>"
  have again: "disk w' = disk w \<and> syscalls w' = syscalls w"
    if "choice_loop pf (py_print s ?w1) = (r, w')" for s
    using Cons.hyps(1) [of "py_print s ?w1"] that by (simp add: py_print_def)
  from Cons.prems show ?case
    by (subst (asm) choice_loop.simps)
       (auto simp: py_input_def line split: option.splits if_splits dest: again)
qed

lemma start_index_loop_frame:
  "start_index_loop pf w = (r, w') \<Longrightarrow> disk w' = disk w \<and> syscalls w' = syscalls w"
proof (induction "stdin w" arbitrary: w)
  case Nil
  then show ?case
    by (subst (asm) start_index_loop.simps) (auto simp: py_input_def)
next
  case (Cons line rest)
  from Cons.hyps(2) have line: "stdin w = line # rest" by simp
  let ?w1 = "w\<lparr>stdin := rest,
               stdout := stdout w @ [''Enter starting number/letter index (default is 1): '']\<rparr>"
  have again: "disk w' = disk w \<and> syscalls w' = syscalls w"
    if "start_index_loop pf (py_print s ?w1) = (r, w')" for s
    using Cons.hyps(1) [of "py_print s ?w1"] that by (simp add: py_print_def)
  from Cons.prems show ?case
    by (subst (asm) start_index_loop.simps)
       (auto simp: py_input_def line split: option.splits if_splits dest: again)
qed

lemma py_input_frame:
  "py_input prompt w = (r, w') \<Longrightarrow> disk w' = disk w \<and> syscalls w' = syscalls w"
  by (auto simp: py_input_def split: list.splits)

lemma rename_calls_isfile: "rename_calls (map (\<lambda>f. Isfile (g f)) names) = []"
  by (induction names) simp_all

lemma get_user_preferences_frame:
  assumes "get_user_preferences pf w = (r, w')"
  shows "disk w' = disk w
       \<and> (syscalls w' = syscalls w \<or> syscalls w' = syscalls w @ [Getcwd])"
  using assms unfolding get_user_preferences_def Let_def
  by (auto simp: py_print_def call_getcwd_def
        split: prod.splits sum.splits if_splits
        dest!: py_input_frame choice_loop_frame start_index_loop_frame)

lemma get_files_to_rename_frame:
  assumes "get_files_to_rename pf dir ext w = (r, w')"
  shows "disk w' = disk w \<and> stdin w' = stdin w
       \<and> rename_calls (syscalls w') = rename_calls (syscalls w)"
  using assms unfolding get_files_to_rename_def Let_def
  by (auto simp: py_print_def call_listdir_def isfile_filter_eq rename_calls_append
        rename_calls_isfile
        split: prod.splits sum.splits if_splits py_exn.splits)

lemma preview_changes_frame:
  assumes "preview_changes dir files name style start w = (r, w')"
  shows "disk w' = disk w \<and> syscalls w' = syscalls w"
  using assms unfolding preview_changes_def Let_def
  by (auto simp: py_print_def preview_loop_stdout
        split: prod.splits sum.splits if_splits dest!: py_input_frame)

text \<open>
  Claim C7. When the line read for the base name is empty after trimming (the directory
  line before it having been read, and the working directory obtained where that line is
  blank), the preference collector prints the error and returns \<open>None\<close>, and \<open>main\<close>
  returns at once in the world the collector left: two lines read, the banner, two
  prompts and the error written, the disk as it was, and no call made except
  \<^verbatim>\<open>os.getcwd\<close> for a blank directory line. No listing is requested and nothing is
  renamed.
\<close>

theorem empty_base_name_aborts:
  assumes "stdin w = line1 # line2 # rest"
    and "py_strip line2 = []"
    and "py_strip line1 = [] \<longrightarrow> (\<exists>cwd. os_getcwd pf (disk w) = Inr cwd)"
  shows "get_user_preferences pf w =
           (Inr None,
            w\<lparr>stdin := rest,
              stdout := stdout w
                @ [''=== File Renaming Automation ==='',
                   ''Enter the directory path (or press Enter for current directory): '',
                   ''Enter the common name for all files: '',
                   ''Error: Common name cannot be empty!''],
              syscalls := syscalls w @ (if py_strip line1 = [] then [Getcwd] else [])\<rparr>)
       \<and> main pf w =
           (Inr (),
            w\<lparr>stdin := rest,
              stdout := stdout w
                @ [''=== File Renaming Automation ==='',
                   ''Enter the directory path (or press Enter for current directory): '',
                   ''Enter the common name for all files: '',
                   ''Error: Common name cannot be empty!''],
              syscalls := syscalls w @ (if py_strip line1 = [] then [Getcwd] else [])\<rparr>)
       \<and> disk (snd (main pf w)) = disk w
       \<and> rename_calls (syscalls (snd (main pf w))) = rename_calls (syscalls w)
       \<and> Listdir dir \<notin> set (drop (length (syscalls w)) (syscalls (snd (main pf w))))"
proof -
  let ?w' = "w\<lparr>stdin := rest,
              stdout := stdout w
                @ [''=== File Renaming Automation ==='',
                   ''Enter the directory path (or press Enter for current directory): '',
                   ''Enter the common name for all files: '',
                   ''Error: Common name cannot be empty!''],
              syscalls := syscalls w @ (if py_strip line1 = [] then [Getcwd] else [])\<rparr>"
  have collector: "get_user_preferences pf w = (Inr None, ?w')"
  proof (cases "py_strip line1 = []")
    case True
    with assms(3) obtain cwd where "os_getcwd pf (disk w) = Inr cwd" by blast
    with True assms(1,2) show ?thesis
      by (simp add: get_user_preferences_def py_print_def py_input_def call_getcwd_def)
  next
    case False
    with assms(1,2) show ?thesis
      by (simp add: get_user_preferences_def py_print_def py_input_def)
  qed
  then have pipeline: "main pf w = (Inr (), ?w')"
    by (simp add: main_def)
  have "disk ?w' = disk w" by simp
  moreover have "rename_calls (syscalls ?w') = rename_calls (syscalls w)"
    by (simp add: rename_calls_append)
  moreover have "Listdir dir \<notin> set (drop (length (syscalls w)) (syscalls ?w'))"
    by simp
  ultimately show ?thesis using collector pipeline by simp
qed

theorem empty_base_name_aborts_witness:
  "stdin (demo_world ['''', ''   '', ''1''] [(''x.png'', RegularFile)]) = [] # ''   '' # [''1'']
   \<and> py_strip ''   '' = []
   \<and> py_strip [] = []
   \<and> os_getcwd demo_platform (disk (demo_world ['''', ''   '', ''1''] [(''x.png'', RegularFile)]))
       = Inr ''/data''
   \<and> main demo_platform (demo_world ['''', ''   '', ''1''] [(''x.png'', RegularFile)])
       = (Inr (),
          \<lparr>stdin = [''1''],
           stdout = [''=== File Renaming Automation ==='',
                   ''Enter the directory path (or press Enter for current directory): '',
                   ''Enter the common name for all files: '',
                   ''Error: Common name cannot be empty!''],
           disk = [(''x.png'', RegularFile)],
           syscalls = [Getcwd]\<rparr>)"
proof -
  let ?W = "demo_world ['''', ''   '', ''1''] [(''x.png'', RegularFile)]"
  have h1: "stdin ?W = [] # ''   '' # [''1'']" by (simp add: demo_world_def)
  have h2: "py_strip ''   '' = []" by (simp add: text_simps)
  have h0: "py_strip [] = []" by (simp add: text_simps)
  have cwd: "os_getcwd demo_platform (disk ?W) = Inr ''/data''" by (simp add: demo_simps)
  then have h3: "py_strip [] = [] \<longrightarrow> (\<exists>cwd. os_getcwd demo_platform (disk ?W) = Inr cwd)"
    by blast
  from empty_base_name_aborts [of ?W "[]" "''   ''" "[''1'']" demo_platform, OF h1 h2 h3]
  have "main demo_platform ?W =
           (Inr (),
            ?W\<lparr>stdin := [''1''],
              stdout := stdout ?W
                @ [''=== File Renaming Automation ==='',
                   ''Enter the directory path (or press Enter for current directory): '',
                   ''Enter the common name for all files: '',
                   ''Error: Common name cannot be empty!''],
              syscalls := syscalls ?W @ (if py_strip [] = [] then [Getcwd] else [])\<rparr>)"
    by blast
  then have "main demo_platform ?W
       = (Inr (),
          \<lparr>stdin = [''1''],
           stdout = [''=== File Renaming Automation ==='',
                   ''Enter the directory path (or press Enter for current directory): '',
                   ''Enter the common name for all files: '',
                   ''Error: Common name cannot be empty!''],
           disk = [(''x.png'', RegularFile)],
           syscalls = [Getcwd]\<rparr>)"
    by (simp add: demo_world_def h0)
  with h1 h2 h0 cwd show ?thesis by blast
qed

lemma get_user_preferences_no_rename:
  assumes "get_user_preferences pf w = (r, w')"
  shows "rename_calls (syscalls w') = rename_calls (syscalls w)"
  using get_user_preferences_frame [OF assms] by (auto simp: rename_calls_append)

lemma lister_failure_signal:
  assumes "os_listdir pf (disk w) dir = Inl (FileNotFoundError m)
         \<or> os_listdir pf (disk w) dir = Inl (PermissionError m)"
  shows "fst (get_files_to_rename pf dir ext w) = Inr None"
  using assms by (auto simp: get_files_to_rename_def call_listdir_def)

text \<open>
  Claim C10. The file lister returns \<open>None\<close> when the listing fails because the
  directory is not found or may not be read. Whether the lister returns \<open>None\<close> or the
  empty list, \<open>main\<close> does the same: it prints that no files were found and returns, in
  the world the lister left. Nothing has been read from the input since the preferences
  (so no confirmation was asked for), the disk is as it was, and no rename was
  requested.
\<close>

theorem lister_failure_like_empty:
  "(os_listdir pf (disk w1) dir = Inl (FileNotFoundError m)
      \<or> os_listdir pf (disk w1) dir = Inl (PermissionError m)
    \<longrightarrow> fst (get_files_to_rename pf dir ext w1) = Inr None)
   \<and> (get_user_preferences pf w = (Inr (Some prefs), w1)
      \<and> get_files_to_rename pf (directory prefs) (extension_filter prefs) w1 = (Inr found, w2)
      \<and> (found = None \<or> found = Some [])
    \<longrightarrow> main pf w = (Inr (), py_print ''No files found to rename!'' w2)
      \<and> stdin w2 = stdin w1
      \<and> disk w2 = disk w
      \<and> rename_calls (syscalls w2) = rename_calls (syscalls w))"
proof -
  have signal: "fst (get_files_to_rename pf dir ext w1) = Inr None"
    if "os_listdir pf (disk w1) dir = Inl (FileNotFoundError m)
      \<or> os_listdir pf (disk w1) dir = Inl (PermissionError m)"
    using that by (rule lister_failure_signal)
  have halt: "main pf w = (Inr (), py_print ''No files found to rename!'' w2)
      \<and> stdin w2 = stdin w1
      \<and> disk w2 = disk w
      \<and> rename_calls (syscalls w2) = rename_calls (syscalls w)"
    if prefs: "get_user_preferences pf w = (Inr (Some prefs), w1)"
      and lister: "get_files_to_rename pf (directory prefs) (extension_filter prefs) w1
                     = (Inr found, w2)"
      and none: "found = None \<or> found = Some []"
  proof -
    have "main pf w = (Inr (), py_print ''No files found to rename!'' w2)"
      using prefs lister none by (auto simp: main_def)
    moreover have "stdin w2 = stdin w1" "disk w2 = disk w1"
      "rename_calls (syscalls w2) = rename_calls (syscalls w1)"
      using get_files_to_rename_frame [OF lister] by simp_all
    moreover have "disk w1 = disk w" "rename_calls (syscalls w1) = rename_calls (syscalls w)"
      using get_user_preferences_frame [OF prefs] get_user_preferences_no_rename [OF prefs]
      by simp_all
    ultimately show ?thesis by simp
  qed
  from signal halt show ?thesis by blast
qed

theorem lister_failure_like_empty_witness:
  "os_listdir demo_platform [(''x.png'', RegularFile)] ''/nowhere''
     = Inl (FileNotFoundError ''/nowhere'')
   \<and> fst (get_user_preferences demo_platform
            (demo_world [''/nowhere'', ''photo'', ''1'', ''1'', ''''] [(''x.png'', RegularFile)]))
       = Inr (Some \<lparr>directory = ''/nowhere'', common_name = ''photo'', numbering_style = 1,
                    start_index = 1, extension_filter = []\<rparr>)
   \<and> fst (get_files_to_rename demo_platform ''/nowhere'' []
            (snd (get_user_preferences demo_platform
               (demo_world [''/nowhere'', ''photo'', ''1'', ''1'', '''']
                  [(''x.png'', RegularFile)]))))
       = Inr None
   \<and> fst (main demo_platform
            (demo_world [''/nowhere'', ''photo'', ''1'', ''1'', ''''] [(''x.png'', RegularFile)]))
       = Inr ()
   \<and> last (stdout (snd (main demo_platform
            (demo_world [''/nowhere'', ''photo'', ''1'', ''1'', '''']
               [(''x.png'', RegularFile)]))))
       = ''No files found to rename!''
   \<and> fst (get_user_preferences demo_platform
            (demo_world [''/data'', ''photo'', ''1'', ''1'', ''zip''] [(''x.png'', RegularFile)]))
       = Inr (Some \<lparr>directory = ''/data'', common_name = ''photo'', numbering_style = 1,
                    start_index = 1, extension_filter = ''zip''\<rparr>)
   \<and> fst (get_files_to_rename demo_platform ''/data'' ''zip''
            (snd (get_user_preferences demo_platform
               (demo_world [''/data'', ''photo'', ''1'', ''1'', ''zip'']
                  [(''x.png'', RegularFile)]))))
       = Inr (Some [])
   \<and> fst (main demo_platform
            (demo_world [''/data'', ''photo'', ''1'', ''1'', ''zip''] [(''x.png'', RegularFile)]))
       = Inr ()
   \<and> last (stdout (snd (main demo_platform
            (demo_world [''/data'', ''photo'', ''1'', ''1'', ''zip'']
               [(''x.png'', RegularFile)]))))
       = ''No files found to rename!''"
proof -
  let ?D = "[(''x.png'', RegularFile)]"
  let ?A = "demo_world [''/nowhere'', ''photo'', ''1'', ''1'', ''''] ?D"
  let ?B = "demo_world [''/data'', ''photo'', ''1'', ''1'', ''zip''] ?D"
  let ?P = "\<lparr>directory = ''/nowhere'', common_name = ''photo'', numbering_style = 1,
             start_index = 1, extension_filter = []\<rparr>"
  let ?Q = "\<lparr>directory = ''/data'', common_name = ''photo'', numbering_style = 1,
             start_index = 1, extension_filter = ''zip''\<rparr>"
  let ?A1 = "snd (get_user_preferences demo_platform ?A)"
  let ?B1 = "snd (get_user_preferences demo_platform ?B)"
  let ?A2 = "snd (get_files_to_rename demo_platform ''/nowhere'' [] ?A1)"
  let ?B2 = "snd (get_files_to_rename demo_platform ''/data'' ''zip'' ?B1)"
  have missing: "os_listdir demo_platform ?D ''/nowhere'' = Inl (FileNotFoundError ''/nowhere'')"
    by (simp add: demo_simps)
  have pa: "fst (get_user_preferences demo_platform ?A) = Inr (Some ?P)"
    by (simp add: get_user_preferences_def choice_loop.simps start_index_loop.simps
          io_simps demo_simps text_simps)
  have pb: "fst (get_user_preferences demo_platform ?B) = Inr (Some ?Q)"
    by (simp add: get_user_preferences_def choice_loop.simps start_index_loop.simps
          io_simps demo_simps text_simps)
  have prefs_a: "get_user_preferences demo_platform ?A = (Inr (Some ?P), ?A1)"
    using pa by (simp add: prod_eq_iff)
  have prefs_b: "get_user_preferences demo_platform ?B = (Inr (Some ?Q), ?B1)"
    using pb by (simp add: prod_eq_iff)
  have disk_a: "disk ?A1 = ?D"
    using get_user_preferences_frame [OF prefs_a] by (simp add: demo_world_def)
  have disk_b: "disk ?B1 = ?D"
    using get_user_preferences_frame [OF prefs_b] by (simp add: demo_world_def)
  note inst_a = lister_failure_like_empty
    [of demo_platform ?A1 "''/nowhere''" "''/nowhere''" "[]" ?A ?P None ?A2]
  note inst_b = lister_failure_like_empty
    [of demo_platform ?B1 "''/data''" "''/data''" "''zip''" ?B ?Q "Some []" ?B2]
  have la: "fst (get_files_to_rename demo_platform ''/nowhere'' [] ?A1) = Inr None"
    using inst_a missing disk_a by simp
  have lb: "fst (get_files_to_rename demo_platform ''/data'' ''zip'' ?B1) = Inr (Some [])"
  proof -
    have "os_listdir demo_platform (disk ?B1) ''/data'' = Inr [''x.png'']"
      unfolding disk_b by (simp add: demo_simps)
    from get_files_to_rename_listed [OF this, of "''zip''"]
    show ?thesis
      unfolding disk_b by (simp add: demo_simps text_simps os_path_join_def dot_normalized_def)
  qed
  have lister_a: "get_files_to_rename demo_platform (directory ?P) (extension_filter ?P) ?A1
      = (Inr None, ?A2)"
    using la by (simp add: prod_eq_iff)
  have lister_b: "get_files_to_rename demo_platform (directory ?Q) (extension_filter ?Q) ?B1
      = (Inr (Some []), ?B2)"
    using lb by (simp add: prod_eq_iff)
  have main_a: "main demo_platform ?A = (Inr (), py_print ''No files found to rename!'' ?A2)"
    using inst_a prefs_a lister_a by blast
  have main_b: "main demo_platform ?B = (Inr (), py_print ''No files found to rename!'' ?B2)"
    using inst_b prefs_b lister_b by blast
  have ra: "fst (main demo_platform ?A) = Inr ()"
    "last (stdout (snd (main demo_platform ?A))) = ''No files found to rename!''"
    by (simp_all add: main_a py_print_def)
  have rb: "fst (main demo_platform ?B) = Inr ()"
    "last (stdout (snd (main demo_platform ?B))) = ''No files found to rename!''"
    by (simp_all add: main_b py_print_def)
  from missing pa la ra pb lb rb show ?thesis by blast
qed

lemma get_files_to_rename_all:
  assumes "os_listdir pf (disk w) dir = Inr names"
  shows "fst (get_files_to_rename pf dir [] w) =
     Inr (Some (filter (\<lambda>f. os_path_isfile pf (disk w) (os_path_join dir f)) names))"
  using assms
  by (simp add: get_files_to_rename_def call_listdir_def isfile_filter_eq)

lemma of_char_y: "(of_char c :: nat) = 121 \<longleftrightarrow> c = CHR ''y''"
proof -
  have "(of_char c :: nat) = of_char CHR ''y'' \<longleftrightarrow> c = CHR ''y''"
    by (rule of_char_eq_iff)
  then show ?thesis by simp
qed

lemma of_char_Y: "(of_char c :: nat) = 89 \<longleftrightarrow> c = CHR ''Y''"
proof -
  have "(of_char c :: nat) = of_char CHR ''Y'' \<longleftrightarrow> c = CHR ''Y''"
    by (rule of_char_eq_iff)
  then show ?thesis by simp
qed

lemma lower_char_y: "lower_char c = CHR ''y'' \<longleftrightarrow> c = CHR ''y'' \<or> c = CHR ''Y''"
proof -
  have b: "(of_char c :: nat) < 256" by (rule of_char_less_256)
  show ?thesis
    using b unfolding lower_char_def Let_def of_char_y [symmetric] of_char_Y [symmetric]
    by (auto simp: char_of_eq_iff take_bit_eq_mod)
qed

lemma py_lower_y: "py_lower s = ''y'' \<longleftrightarrow> s = ''y'' \<or> s = ''Y''"
  by (cases s) (auto simp: py_lower_def lower_char_y)

lemma preview_changes_answer:
  assumes "stdin w = line # rest"
  shows "fst (preview_changes dir files name style start w)
           = Inr (py_strip line = ''y'' \<or> py_strip line = ''Y'')"
    and "stdin (snd (preview_changes dir files name style start w)) = rest"
  using assms
  by (simp_all add: preview_changes_def Let_def preview_loop_stdout py_print_def py_input_def
        py_lower_y)

text \<open>
  Claim C4, as amended. The confirmation is the line read, trimmed of surrounding white
  space: \<^verbatim>\<open>preview_changes\<close> returns true when that is \<open>y\<close> or \<open>Y\<close> and false for every other
  line, the blank line and \<open>n\<close> among them. When the pipeline has come to the preview
  with a non-empty file list and the preview returns false, \<open>main\<close> prints that renaming was
  cancelled and returns: the disk is as it was at the start and no rename has been
  requested, so none is counted.
\<close>

theorem decline_halts_pipeline:
  "(stdin w2 = line # rest \<longrightarrow>
      fst (preview_changes dir files name style start w2)
        = Inr (py_strip line = ''y'' \<or> py_strip line = ''Y''))
   \<and> (get_user_preferences pf w = (Inr (Some prefs), w1)
      \<and> get_files_to_rename pf (directory prefs) (extension_filter prefs) w1
          = (Inr (Some files), w2)
      \<and> files \<noteq> []
      \<and> stdin w2 = line # rest
      \<and> py_strip line \<noteq> ''y'' \<and> py_strip line \<noteq> ''Y''
    \<longrightarrow> (\<exists>w3. preview_changes (directory prefs) files (common_name prefs)
                  (numbering_style prefs) (start_index prefs) w2 = (Inr False, w3)
            \<and> main pf w = (Inr (), py_print ''Renaming cancelled by user.'' w3)
            \<and> stdin w3 = rest
            \<and> disk w3 = disk w
            \<and> rename_calls (syscalls w3) = rename_calls (syscalls w)))"
proof -
  have answer: "fst (preview_changes dir files name style start w2)
        = Inr (py_strip line = ''y'' \<or> py_strip line = ''Y'')"
    if "stdin w2 = line # rest"
    using that by (rule preview_changes_answer)
  have halt: "\<exists>w3. preview_changes (directory prefs) files (common_name prefs)
                  (numbering_style prefs) (start_index prefs) w2 = (Inr False, w3)
            \<and> main pf w = (Inr (), py_print ''Renaming cancelled by user.'' w3)
            \<and> stdin w3 = rest
            \<and> disk w3 = disk w
            \<and> rename_calls (syscalls w3) = rename_calls (syscalls w)"
    if prefs: "get_user_preferences pf w = (Inr (Some prefs), w1)"
      and lister: "get_files_to_rename pf (directory prefs) (extension_filter prefs) w1
          = (Inr (Some files), w2)"
      and some: "files \<noteq> []"
      and line: "stdin w2 = line # rest"
      and no: "py_strip line \<noteq> ''y'' \<and> py_strip line \<noteq> ''Y''"
  proof -
    have "fst (preview_changes (directory prefs) files (common_name prefs)
                  (numbering_style prefs) (start_index prefs) w2) = Inr False"
      using preview_changes_answer(1) [OF line] no by simp
    then obtain w3 where preview: "preview_changes (directory prefs) files (common_name prefs)
                  (numbering_style prefs) (start_index prefs) w2 = (Inr False, w3)"
      by (metis prod.collapse)
    obtain f fs where files: "files = f # fs" using some by (cases files) auto
    have pipeline: "main pf w = (Inr (), py_print ''Renaming cancelled by user.'' w3)"
      using prefs lister preview unfolding files by (simp add: main_def)
    have "stdin w3 = rest"
      using preview_changes_answer(2) [OF line, of "directory prefs" files "common_name prefs"
          "numbering_style prefs" "start_index prefs"] preview by simp
    moreover have "disk w3 = disk w2" "syscalls w3 = syscalls w2"
      using preview_changes_frame [OF preview] by simp_all
    moreover have "disk w2 = disk w1"
      "rename_calls (syscalls w2) = rename_calls (syscalls w1)"
      using get_files_to_rename_frame [OF lister] by simp_all
    moreover have "disk w1 = disk w" "rename_calls (syscalls w1) = rename_calls (syscalls w)"
      using get_user_preferences_frame [OF prefs] get_user_preferences_no_rename [OF prefs]
      by simp_all
    ultimately show ?thesis using preview pipeline by auto
  qed
  from answer halt show ?thesis by blast
qed

lemmas script_simps =
  main_def get_user_preferences_def choice_loop.simps start_index_loop.simps
  get_files_to_rename_def isfile_filter_eq preview_changes_def preview_loop_stdout
  rename_files_def Let_def

theorem decline_halts_pipeline_witness:
  "fst (get_user_preferences demo_platform
          (demo_world [''/data'', ''photo'', ''1'', ''1'', '''', ''n''] [(''x.png'', RegularFile)]))
     = Inr (Some \<lparr>directory = ''/data'', common_name = ''photo'', numbering_style = 1,
                  start_index = 1, extension_filter = []\<rparr>)
   \<and> fst (get_files_to_rename demo_platform ''/data'' []
            (snd (get_user_preferences demo_platform
               (demo_world [''/data'', ''photo'', ''1'', ''1'', '''', ''n'']
                  [(''x.png'', RegularFile)]))))
       = Inr (Some [''x.png''])
   \<and> stdin (snd (get_files_to_rename demo_platform ''/data'' []
            (snd (get_user_preferences demo_platform
               (demo_world [''/data'', ''photo'', ''1'', ''1'', '''', ''n'']
                  [(''x.png'', RegularFile)])))))
       = [''n'']
   \<and> py_strip ''n'' \<noteq> ''y'' \<and> py_strip ''n'' \<noteq> ''Y''
   \<and> fst (main demo_platform
            (demo_world [''/data'', ''photo'', ''1'', ''1'', '''', ''n''] [(''x.png'', RegularFile)]))
       = Inr ()
   \<and> last (stdout (snd (main demo_platform
            (demo_world [''/data'', ''photo'', ''1'', ''1'', '''', ''n'']
               [(''x.png'', RegularFile)]))))
       = ''Renaming cancelled by user.''
   \<and> disk (snd (main demo_platform
            (demo_world [''/data'', ''photo'', ''1'', ''1'', '''', ''n'']
               [(''x.png'', RegularFile)])))
       = [(''x.png'', RegularFile)]
   \<and> rename_calls (syscalls (snd (main demo_platform
            (demo_world [''/data'', ''photo'', ''1'', ''1'', '''', ''n'']
               [(''x.png'', RegularFile)]))))
       = []"
proof -
  let ?D = "[(''x.png'', RegularFile)]"
  let ?A = "demo_world [''/data'', ''photo'', ''1'', ''1'', '''', ''n''] ?D"
  let ?P = "\<lparr>directory = ''/data'', common_name = ''photo'', numbering_style = 1,
             start_index = 1, extension_filter = []\<rparr>"
  let ?A1 = "snd (get_user_preferences demo_platform ?A)"
  let ?A2 = "snd (get_files_to_rename demo_platform ''/data'' [] ?A1)"
  have pa: "fst (get_user_preferences demo_platform ?A) = Inr (Some ?P)"
    by (simp add: script_simps io_simps demo_simps text_simps)
  have sa: "stdin ?A1 = [''n'']"
    by (simp add: script_simps io_simps demo_simps text_simps)
  have prefs: "get_user_preferences demo_platform ?A = (Inr (Some ?P), ?A1)"
    using pa by (simp add: prod_eq_iff)
  have disk1: "disk ?A1 = ?D"
    using get_user_preferences_frame [OF prefs] by (simp add: demo_world_def)
  have la: "fst (get_files_to_rename demo_platform ''/data'' [] ?A1) = Inr (Some [''x.png''])"
  proof -
    have "os_listdir demo_platform (disk ?A1) ''/data'' = Inr [''x.png'']"
      unfolding disk1 by (simp add: demo_simps)
    from get_files_to_rename_all [OF this]
    show ?thesis
      unfolding disk1 by (simp add: demo_simps os_path_join_def text_simps)
  qed
  have lister: "get_files_to_rename demo_platform (directory ?P) (extension_filter ?P) ?A1
      = (Inr (Some [''x.png'']), ?A2)"
    using la by (simp add: prod_eq_iff)
  have line: "stdin ?A2 = ''n'' # []"
    using get_files_to_rename_frame [OF lister] sa by simp
  have no: "py_strip ''n'' \<noteq> ''y'' \<and> py_strip ''n'' \<noteq> ''Y''"
    by (simp add: text_simps)
  from decline_halts_pipeline
    [of ?A2 "''n''" "[]" "''/data''" "[''x.png'']" "''photo''" 1 1 demo_platform ?A ?P ?A1]
    prefs lister line no
  obtain w3 where pipeline: "main demo_platform ?A
        = (Inr (), py_print ''Renaming cancelled by user.'' w3)"
    and same: "disk w3 = disk ?A" "rename_calls (syscalls w3) = rename_calls (syscalls ?A)"
    by auto
  have r1: "fst (main demo_platform ?A) = Inr ()"
    and r2: "last (stdout (snd (main demo_platform ?A))) = ''Renaming cancelled by user.''"
    and r3: "disk (snd (main demo_platform ?A)) = ?D"
    and r4: "rename_calls (syscalls (snd (main demo_platform ?A))) = []"
    using same unfolding pipeline by (simp_all add: py_print_def demo_world_def)
  from pa la line no r1 r2 r3 r4 show ?thesis by simp
qed

text \<open>
  The claim as stated fails for a line that is not \<open>y\<close> or \<open>Y\<close> itself but is so after
  trimming: with a blank before the \<open>y\<close> the preview returns true, and the run renames
  the file.
\<close>

theorem confirmation_with_blank_counterexample:
  "'' y'' \<noteq> ''y'' \<and> '' y'' \<noteq> ''Y''
   \<and> fst (preview_changes ''/data'' [''x.png''] ''photo'' 1 1
            (demo_world ['' y''] [(''x.png'', RegularFile)])) = Inr True
   \<and> fst (main demo_platform
            (demo_world [''/data'', ''photo'', ''1'', ''1'', '''', '' y'']
               [(''x.png'', RegularFile)])) = Inr ()
   \<and> disk (snd (main demo_platform
            (demo_world [''/data'', ''photo'', ''1'', ''1'', '''', '' y'']
               [(''x.png'', RegularFile)]))) = [(''photo_1.png'', RegularFile)]
   \<and> rename_calls (syscalls (snd (main demo_platform
            (demo_world [''/data'', ''photo'', ''1'', ''1'', '''', '' y'']
               [(''x.png'', RegularFile)]))))
       = [(''/data/x.png'', ''/data/photo_1.png'')]"
  by (simp add: script_simps io_simps demo_simps text_simps suffix_simps path_simps)

text \<open>
  Claim C8. For the index 0 the alphabetic suffix is the empty string. The preference
  collector accepts the start index 0 together with the alphabetic style: answering the
  five prompts with a directory, a base name, the choice 2, the index 0 and any filter,
  it returns these as the preferences. The first file of such a run gets the base name,
  the underscore and its extension, with nothing between.
\<close>

theorem zero_index_alphabetic_unguarded:
  "generate_suffix 0 2 = []
   \<and> (stdin w = line1 # line2 # line3 # line4 # line5 # rest
      \<and> py_strip line1 \<noteq> [] \<and> py_strip line2 \<noteq> []
      \<and> int_of_str pf line3 = Some 2
      \<and> int_of_str pf (if line4 = [] then ''1'' else line4) = Some 0
    \<longrightarrow> fst (get_user_preferences pf w) =
          Inr (Some \<lparr>directory = py_strip line1, common_name = py_strip line2,
                      numbering_style = 2, start_index = 0,
                      extension_filter = py_lower (py_strip line5)\<rparr>))
   \<and> planned_name name 2 0 0 filename = name @ ''_'' @ snd (os_path_splitext filename)"
proof -
  have empty: "generate_suffix 0 2 = []"
    by (simp add: generate_suffix_def letters_loop_nonpos)
  have accepted: "fst (get_user_preferences pf w) =
          Inr (Some \<lparr>directory = py_strip line1, common_name = py_strip line2,
                      numbering_style = 2, start_index = 0,
                      extension_filter = py_lower (py_strip line5)\<rparr>)"
    if "stdin w = line1 # line2 # line3 # line4 # line5 # rest
      \<and> py_strip line1 \<noteq> [] \<and> py_strip line2 \<noteq> []
      \<and> int_of_str pf line3 = Some 2
      \<and> int_of_str pf (if line4 = [] then ''1'' else line4) = Some 0"
    using that
    by (simp add: get_user_preferences_def Let_def py_input_def py_print_def
          choice_loop.simps [of pf] start_index_loop.simps [of pf])
  have first: "planned_name name 2 0 0 filename = name @ ''_'' @ snd (os_path_splitext filename)"
    by (simp add: planned_name_def empty)
  from empty accepted first show ?thesis by blast
qed

theorem zero_index_alphabetic_unguarded_witness:
  "stdin (demo_world [''/data'', ''photo'', ''2'', ''0'', '''', ''y''] [(''x.png'', RegularFile)])
     = ''/data'' # ''photo'' # ''2'' # ''0'' # [] # [''y'']
   \<and> py_strip ''/data'' \<noteq> [] \<and> py_strip ''photo'' \<noteq> []
   \<and> int_of_str demo_platform ''2'' = Some 2
   \<and> int_of_str demo_platform (if ''0'' = [] then ''1'' else ''0'') = Some 0
   \<and> fst (get_user_preferences demo_platform
            (demo_world [''/data'', ''photo'', ''2'', ''0'', '''', ''y''] [(''x.png'', RegularFile)]))
       = Inr (Some \<lparr>directory = ''/data'', common_name = ''photo'', numbering_style = 2,
                    start_index = 0, extension_filter = []\<rparr>)
   \<and> disk (snd (main demo_platform
            (demo_world [''/data'', ''photo'', ''2'', ''0'', '''', ''y'']
               [(''x.png'', RegularFile)])))
       = [(''photo_.png'', RegularFile)]"
proof -
  let ?W = "demo_world [''/data'', ''photo'', ''2'', ''0'', '''', ''y''] [(''x.png'', RegularFile)]"
  have h1: "stdin ?W = ''/data'' # ''photo'' # ''2'' # ''0'' # [] # [''y'']"
    by (simp add: demo_world_def)
  have h2: "py_strip ''/data'' \<noteq> [] \<and> py_strip ''photo'' \<noteq> []"
    by (simp add: text_simps)
  have h3: "int_of_str demo_platform ''2'' = Some 2"
    by (simp add: demo_simps)
  have h4: "int_of_str demo_platform (if ''0'' = [] then ''1'' else ''0'') = Some 0"
    by (simp add: demo_simps)
  have "fst (get_user_preferences demo_platform ?W) =
          Inr (Some \<lparr>directory = py_strip ''/data'', common_name = py_strip ''photo'',
                      numbering_style = 2, start_index = 0,
                      extension_filter = py_lower (py_strip [])\<rparr>)"
    using zero_index_alphabetic_unguarded
      [of ?W "''/data''" "''photo''" "''2''" "''0''" "[]" "[''y'']" demo_platform]
      h1 h2 h3 h4 by blast
  then have collected: "fst (get_user_preferences demo_platform ?W)
       = Inr (Some \<lparr>directory = ''/data'', common_name = ''photo'', numbering_style = 2,
                    start_index = 0, extension_filter = []\<rparr>)"
    by (simp add: text_simps)
  have renamed: "disk (snd (main demo_platform ?W)) = [(''photo_.png'', RegularFile)]"
    by (simp add: script_simps io_simps demo_simps text_simps suffix_simps path_simps)
  from h1 h2 h3 h4 collected renamed show ?thesis by blast
qed

end
